theory Spec2Isabelle
  imports Complex_Main "HOL-Library.Sublist"
begin

section \<open>Exceptions\<close>

text \<open>
  Python exceptions are values.  A computation that may raise has the result type
  \<open>exn + 'a\<close>, with \<open>Inl\<close> carrying the exception.  The payload is the message text; where
  the library interpolates the offending value into the message, only the fixed part of the
  message is kept.
\<close>

datatype exn =
    ValueError string
  | IndexError string
  | KeyError string
  | TypeError string
  | ValidationError string
  | OutputParserException string
  | RequestException string
  | ModelError string
  | GraphRecursionError

section \<open>The standard library: \<open>datetime.fromisoformat\<close> and \<open>strftime\<close>\<close>

text \<open>
  The notebook's only validator calls \<open>datetime.fromisoformat\<close> and \<open>datetime.strftime\<close>.
  Both belong to the Python standard library, not to the notebook.  The notebook's kernel is
  CPython 3.11, where \<open>fromisoformat\<close> is the compiled parser of the \<open>datetime\<close> module.  The
  definitions below follow that parser function by function.  Its calendar helpers are
  written as in \<open>Lib/datetime.py\<close>, with which they agree on the years 1 to 9999; the one
  place where the parser calls them on another year is treated in \<open>isoweek_to_gregorian\<close>.

  A Python \<open>str\<close> is represented by its UTF-8 encoding, which is the buffer the parser reads:
  a \<open>string\<close> is a list of bytes.  The buffer is NUL-terminated, so reading at or beyond its
  length yields the byte 0.
\<close>

definition byte_at :: "string \<Rightarrow> nat \<Rightarrow> char" where
  "byte_at s i = (if i < length s then s ! i else CHR 0x00)"

definition digit_of :: "char \<Rightarrow> int option" where
  "digit_of c =
     (let t = (of_char c :: int) - of_char (CHR ''0'')
      in if 0 \<le> t \<and> t \<le> 9 then Some t else None)"

definition is_digit :: "char \<Rightarrow> bool" where
  "is_digit c = (digit_of c \<noteq> None)"

text \<open>\<open>parse_digits\<close> reads exactly \<open>num_digits\<close> ASCII digits from position \<open>p\<close>, accumulating
  into \<open>var\<close>; it returns the position after them, or \<open>None\<close> at the first other byte.\<close>

fun parse_digits :: "string \<Rightarrow> nat \<Rightarrow> int \<Rightarrow> nat \<Rightarrow> (nat \<times> int) option" where
  "parse_digits s p var 0 = Some (p, var)"
| "parse_digits s p var (Suc num_digits) =
     (case digit_of (byte_at s p) of
        None \<Rightarrow> None
      | Some t \<Rightarrow> parse_digits s (Suc p) (var * 10 + t) num_digits)"

subsection \<open>Calendar arithmetic\<close>

definition MINYEAR :: int where "MINYEAR = 1"
definition MAXYEAR :: int where "MAXYEAR = 9999"

definition DAYS_IN_MONTH :: "int list" where
  "DAYS_IN_MONTH = [-1, 31, 28, 31, 30, 31, 30, 31, 31, 30, 31, 30, 31]"

definition DAYS_BEFORE_MONTH :: "int list" where
  "DAYS_BEFORE_MONTH = [-1, 0, 31, 59, 90, 120, 151, 181, 212, 243, 273, 304, 334]"

definition is_leap :: "int \<Rightarrow> bool" where
  "is_leap year = (year mod 4 = 0 \<and> (year mod 100 \<noteq> 0 \<or> year mod 400 = 0))"

definition days_before_year :: "int \<Rightarrow> int" where
  "days_before_year year = (let y = year - 1 in y * 365 + y div 4 - y div 100 + y div 400)"

text \<open>The two table lookups are only reached with \<open>1 \<le> month \<le> 12\<close>: the callers check or
  compute the month in that range first.\<close>

definition days_in_month :: "int \<Rightarrow> int \<Rightarrow> int" where
  "days_in_month year month =
     (if month = 2 \<and> is_leap year then 29 else DAYS_IN_MONTH ! nat month)"

definition days_before_month :: "int \<Rightarrow> int \<Rightarrow> int" where
  "days_before_month year month =
     DAYS_BEFORE_MONTH ! nat month + (if month > 2 \<and> is_leap year then 1 else 0)"

definition ymd2ord :: "int \<Rightarrow> int \<Rightarrow> int \<Rightarrow> int" where
  "ymd2ord year month day = days_before_year year + days_before_month year month + day"

definition DI400Y :: int where "DI400Y = days_before_year 401"
definition DI100Y :: int where "DI100Y = days_before_year 101"
definition DI4Y :: int where "DI4Y = days_before_year 5"

definition ord2ymd :: "int \<Rightarrow> int \<times> int \<times> int" where
  "ord2ymd ordinal =
     (let n = ordinal - 1;
          n400 = n div DI400Y; n = n mod DI400Y;
          n100 = n div DI100Y; n = n mod DI100Y;
          n4 = n div DI4Y; n = n mod DI4Y;
          n1 = n div 365; n = n mod 365;
          year = n400 * 400 + 1 + n100 * 100 + n4 * 4 + n1
      in if n1 = 4 \<or> n100 = 4 then (year - 1, 12, 31)
         else
           let leapyear = (n1 = 3 \<and> (n4 \<noteq> 24 \<or> n100 = 3));
               month = (n + 50) div 32;
               preceding = DAYS_BEFORE_MONTH ! nat month
                             + (if month > 2 \<and> leapyear then 1 else 0)
           in if preceding > n
              then let month = month - 1;
                       preceding = preceding
                          - (DAYS_IN_MONTH ! nat month + (if month = 2 \<and> leapyear then 1 else 0))
                   in (year, month, n - preceding + 1)
              else (year, month, n - preceding + 1))"

definition isoweek1monday :: "int \<Rightarrow> int" where
  "isoweek1monday year =
     (let THURSDAY = 3;
          firstday = ymd2ord year 1 1;
          firstweekday = (firstday + 6) mod 7;
          week1monday = firstday - firstweekday
      in if firstweekday > THURSDAY then week1monday + 7 else week1monday)"

text \<open>ISO year, week and weekday to year, month and day; \<open>None\<close> where the parser reports a
  week or weekday out of range.  The compiled parser has no test of the year.  Four digits
  write no year above \<open>MAXYEAR\<close>, and the only year below \<open>MINYEAR\<close> they write is 0000.  For
  that year no week 53 exists, and for the weeks 1 to 52 the parser's truncating division
  leaves the ordinal of the day at or below 0, where its conversion back to a calendar date
  ends in year 1 with a month below 1.  The constructor tests the month before the day, so
  only the month is observed; the model returns month 0 there.\<close>

definition isoweek_to_gregorian :: "int \<Rightarrow> int \<Rightarrow> int \<Rightarrow> (int \<times> int \<times> int) option" where
  "isoweek_to_gregorian year week day =
     (if \<not> (0 < week \<and> week < 53) \<and>
         \<not> (week = 53 \<and>
            (let first_weekday = ymd2ord year 1 1 mod 7
             in first_weekday = 4 \<or> (first_weekday = 3 \<and> is_leap year)))
      then None
      else if \<not> (0 < day \<and> day < 8) then None
      else if year < MINYEAR then Some (1, 0, 1)
      else
        let day_offset = (week - 1) * 7 + (day - 1);
            day_1 = isoweek1monday year
        in Some (ord2ymd (day_1 + day_offset)))"

subsection \<open>Locating the date/time separator\<close>

text \<open>The index up to which wide weeks \<open>YYYYWww...\<close> consist of digits, starting at \<open>idx\<close>.\<close>

function digits_end :: "string \<Rightarrow> nat \<Rightarrow> nat \<Rightarrow> nat" where
  "digits_end s len idx =
     (if idx < len \<and> is_digit (byte_at s idx) then digits_end s len (Suc idx) else idx)"
  by pat_completeness auto
termination
  by (relation "measure (\<lambda>(s, len, idx). len - idx)") auto

definition find_isoformat_datetime_separator :: "string \<Rightarrow> nat \<Rightarrow> nat option" where
  "find_isoformat_datetime_separator dtstr len =
     (if len = 7 then Some 7
      else if byte_at dtstr 4 = CHR ''-'' then
        (if byte_at dtstr 5 = CHR ''W'' then
           (if len < 8 then None
            else if len > 8 \<and> byte_at dtstr 8 = CHR ''-'' then
              (if len = 9 then None
               else if len > 10 \<and> is_digit (byte_at dtstr 10) then Some 8
               else Some 10)
            else Some 8)
         else Some 10)
      else if byte_at dtstr 4 = CHR ''W'' then
        (let idx = digits_end dtstr len 7
         in if idx < 9 then Some idx
            else if idx mod 2 = 0 then Some 7
            else Some 8)
      else Some 8)"

subsection \<open>The date part\<close>

definition parse_isoformat_date :: "string \<Rightarrow> nat \<Rightarrow> (int \<times> int \<times> int) option" where
  "parse_isoformat_date dtstr len =
     (case parse_digits dtstr 0 0 4 of
        None \<Rightarrow> None
      | Some (p, year) \<Rightarrow>
          let uses_separator = (byte_at dtstr p = CHR ''-'');
              p = (if uses_separator then Suc p else p)
          in if byte_at dtstr p = CHR ''W'' then
               (case parse_digits dtstr (Suc p) 0 2 of
                  None \<Rightarrow> None
                | Some (p, iso_week) \<Rightarrow>
                    if p < len then
                      (if uses_separator \<and> byte_at dtstr p \<noteq> CHR ''-'' then None
                       else
                         case parse_digits dtstr (if uses_separator then Suc p else p) 0 1 of
                           None \<Rightarrow> None
                         | Some (p, iso_day) \<Rightarrow> isoweek_to_gregorian year iso_week iso_day)
                    else isoweek_to_gregorian year iso_week 1)
             else
               (case parse_digits dtstr p 0 2 of
                  None \<Rightarrow> None
                | Some (p, month) \<Rightarrow>
                    if uses_separator \<and> byte_at dtstr p \<noteq> CHR ''-'' then None
                    else
                      case parse_digits dtstr (if uses_separator then Suc p else p) 0 2 of
                        None \<Rightarrow> None
                      | Some (p, day) \<Rightarrow> Some (year, month, day)))"

subsection \<open>The time part\<close>

text \<open>
  \<open>hh_mm_ss\<close> is the loop of \<open>parse_hh_mm_ss_ff\<close> over the (at most three) two-digit fields,
  \<open>i\<close> being the index of the field to read.  It ends in one of three ways: a malformed field
  or separator (\<open>None\<close>); the end of the component is reached (\<open>Inl\<close>, with the flag telling
  whether the byte last read was something other than the terminating NUL); or the fields are
  followed by a fraction starting at the position returned (\<open>Inr\<close>).
\<close>

function hh_mm_ss ::
  "nat \<Rightarrow> string \<Rightarrow> nat \<Rightarrow> nat \<Rightarrow> bool \<Rightarrow> int list
     \<Rightarrow> ((bool \<times> int list) + (nat \<times> int list)) option" where
  "hh_mm_ss i tstr p_end p has_separator vals =
     (if i \<ge> 3 then Some (Inr (p, vals))
      else
        case parse_digits tstr p 0 2 of
          None \<Rightarrow> None
        | Some (p1, v) \<Rightarrow>
            let vals = vals[i := v];
                c = byte_at tstr p1;
                p2 = Suc p1;
                has_separator = (if i = 0 then c = CHR '':'' else has_separator)
            in if p2 \<ge> p_end then Some (Inl (c \<noteq> CHR 0x00, vals))
               else if has_separator \<and> c = CHR '':'' then
                 hh_mm_ss (Suc i) tstr p_end p2 has_separator vals
               else if c = CHR ''.'' \<or> c = CHR '','' then Some (Inr (p2, vals))
               else if \<not> has_separator then
                 hh_mm_ss (Suc i) tstr p_end p1 has_separator vals
               else None)"
  by pat_completeness auto
termination
  by (relation "measure (\<lambda>(i, tstr, p_end, p, has_separator, vals). 3 - i)") auto

text \<open>Digits of a fraction beyond the sixth are skipped.\<close>

function skip_digits :: "string \<Rightarrow> nat \<Rightarrow> nat" where
  "skip_digits s p = (if is_digit (byte_at s p) then skip_digits s (Suc p) else p)"
  by pat_completeness auto
termination
  by (relation "measure (\<lambda>(s, p). length s - p)")
     (auto simp: byte_at_def is_digit_def digit_of_def split: if_splits)

definition correction :: "int list" where
  "correction = [100000, 10000, 1000, 100, 10]"

text \<open>
  \<open>parse_hh_mm_ss_ff tstr p p_end\<close> parses \<open>HH[:?MM[:?SS[{.,}fff[fff]]]]\<close> between \<open>p\<close> and
  \<open>p_end\<close>.  The result is \<open>None\<close> on a parse failure, else the flag "stopped before the end
  of the buffer", the three fields and the microseconds.  A fraction is only entered with at
  least one byte left before \<open>p_end\<close>, so the table \<open>correction\<close> is read in range.
\<close>

definition parse_hh_mm_ss_ff :: "string \<Rightarrow> nat \<Rightarrow> nat \<Rightarrow> (bool \<times> int list \<times> int) option" where
  "parse_hh_mm_ss_ff tstr p p_end =
     (case hh_mm_ss 0 tstr p_end p True [0, 0, 0] of
        None \<Rightarrow> None
      | Some (Inl (rv, vals)) \<Rightarrow> Some (rv, vals, 0)
      | Some (Inr (p, vals)) \<Rightarrow>
          let len_remains = p_end - p;
              to_parse = (if len_remains \<ge> 6 then 6 else len_remains)
          in case parse_digits tstr p 0 to_parse of
               None \<Rightarrow> None
             | Some (p, microsecond) \<Rightarrow>
                 let microsecond =
                       (if to_parse < 6 then microsecond * (correction ! (to_parse - 1))
                        else microsecond);
                     p = skip_digits tstr p
                 in Some (byte_at tstr p \<noteq> CHR 0x00, vals, microsecond))"

text \<open>The first position from \<open>tzinfo_pos\<close> on holding \<open>Z\<close>, \<open>+\<close> or \<open>-\<close>; the scan is a
  do-while loop, so it looks at the first byte even when the time part is empty.\<close>

function find_tzinfo_pos :: "string \<Rightarrow> nat \<Rightarrow> nat \<Rightarrow> nat" where
  "find_tzinfo_pos s tzinfo_pos p_end =
     (if byte_at s tzinfo_pos = CHR ''Z'' \<or> byte_at s tzinfo_pos = CHR ''+'' \<or> byte_at s tzinfo_pos = CHR ''-''
      then tzinfo_pos
      else if Suc tzinfo_pos < p_end then find_tzinfo_pos s (Suc tzinfo_pos) p_end
      else Suc tzinfo_pos)"
  by pat_completeness auto
termination
  by (relation "measure (\<lambda>(s, tzinfo_pos, p_end). p_end - tzinfo_pos)") auto

text \<open>
  The time part starts at \<open>p\<close> and is \<open>dtlen\<close> bytes long.  The result holds: whether there is
  a UTC offset, the fields, the microseconds, the offset in seconds and its microseconds.
\<close>

definition parse_isoformat_time ::
  "string \<Rightarrow> nat \<Rightarrow> nat \<Rightarrow> (bool \<times> int list \<times> int \<times> int \<times> int) option" where
  "parse_isoformat_time dtstr p dtlen =
     (let p_end = p + dtlen;
          tzinfo_pos = find_tzinfo_pos dtstr p p_end
      in case parse_hh_mm_ss_ff dtstr p tzinfo_pos of
           None \<Rightarrow> None
         | Some (rv, vals, microsecond) \<Rightarrow>
             if tzinfo_pos = p_end then
               (if rv then None else Some (False, vals, microsecond, 0, 0))
             else if byte_at dtstr tzinfo_pos = CHR ''Z'' then
               (if byte_at dtstr (Suc tzinfo_pos) \<noteq> CHR 0x00 then None
                else Some (True, vals, microsecond, 0, 0))
             else
               let tzsign = (if byte_at dtstr tzinfo_pos = CHR ''-'' then - 1 else 1 :: int)
               in case parse_hh_mm_ss_ff dtstr (Suc tzinfo_pos) p_end of
                    None \<Rightarrow> None
                  | Some (rv, tz, tzmicrosecond) \<Rightarrow>
                      if rv then None
                      else Some (True, vals, microsecond,
                                 tzsign * ((tz ! 0) * 3600 + (tz ! 1) * 60 + (tz ! 2)),
                                 tzmicrosecond * tzsign))"

subsection \<open>The \<open>datetime\<close> object and its constructor\<close>

text \<open>A time zone is represented by its UTC offset in microseconds; \<open>None\<close> is a naive
  datetime.\<close>

record datetime =
  year :: int
  month :: int
  day :: int
  hour :: int
  minute :: int
  second :: int
  microsecond :: int
  tzinfo :: "int option"

definition tzinfo_from_isoformat_results :: "bool \<Rightarrow> int \<Rightarrow> int \<Rightarrow> exn + int option" where
  "tzinfo_from_isoformat_results rv tzoffset tz_useconds =
     (if rv then
        (if tzoffset = 0 then Inr (Some 0)
         else
           let offset = tzoffset * 1000000 + tz_useconds
           in if - 86400000000 < offset \<and> offset < 86400000000 then Inr (Some offset)
              else Inl (ValueError ''offset must be a timedelta strictly between -timedelta(hours=24) and timedelta(hours=24)''))
      else Inr None)"

definition new_datetime ::
  "int \<Rightarrow> int \<Rightarrow> int \<Rightarrow> int \<Rightarrow> int \<Rightarrow> int \<Rightarrow> int \<Rightarrow> int option \<Rightarrow> exn + datetime" where
  "new_datetime y m d hh mm ss us tz =
     (if \<not> (MINYEAR \<le> y \<and> y \<le> MAXYEAR) then Inl (ValueError ''year is out of range'')
      else if \<not> (1 \<le> m \<and> m \<le> 12) then Inl (ValueError ''month must be in 1..12'')
      else if \<not> (1 \<le> d \<and> d \<le> days_in_month y m) then
        Inl (ValueError ''day is out of range for month'')
      else if \<not> (0 \<le> hh \<and> hh \<le> 23) then Inl (ValueError ''hour must be in 0..23'')
      else if \<not> (0 \<le> mm \<and> mm \<le> 59) then Inl (ValueError ''minute must be in 0..59'')
      else if \<not> (0 \<le> ss \<and> ss \<le> 59) then Inl (ValueError ''second must be in 0..59'')
      else if \<not> (0 \<le> us \<and> us \<le> 999999) then
        Inl (ValueError ''microsecond must be in 0..999999'')
      else Inr \<lparr>year = y, month = m, day = d, hour = hh, minute = mm, second = ss,
                microsecond = us, tzinfo = tz\<rparr>)"

subsection \<open>\<open>datetime.fromisoformat\<close>\<close>

text \<open>The separator between date and time is one code point of any kind; its width in the
  buffer is read off its first byte.\<close>

definition separator_width :: "char \<Rightarrow> nat" where
  "separator_width c =
     (let b = (of_char c :: nat)
      in if b < 128 then 1
         else if b div 16 = 14 then 3
         else if b div 16 = 15 then 4
         else 2)"

definition invalid_isoformat_string :: exn where
  "invalid_isoformat_string = ValueError ''Invalid isoformat string''"

definition fromisoformat :: "string \<Rightarrow> exn + datetime" where
  "fromisoformat dtstr =
     (let len = length dtstr
      in if len < 7 then Inl invalid_isoformat_string
         else
           case find_isoformat_datetime_separator dtstr len of
             None \<Rightarrow> Inl invalid_isoformat_string
           | Some separator_location \<Rightarrow>
               (case parse_isoformat_date dtstr separator_location of
                  None \<Rightarrow> Inl invalid_isoformat_string
                | Some (y, m, d) \<Rightarrow>
                    (case (if len > separator_location then
                             let p = separator_location
                                       + separator_width (byte_at dtstr separator_location)
                             in parse_isoformat_time dtstr p (len - p)
                           else Some (False, [0, 0, 0], 0, 0, 0)) of
                       None \<Rightarrow> Inl invalid_isoformat_string
                     | Some (rv, vals, us, tzoffset, tzusec) \<Rightarrow>
                         (case tzinfo_from_isoformat_results rv tzoffset tzusec of
                            Inl e \<Rightarrow> Inl e
                          | Inr tz \<Rightarrow>
                              new_datetime y m d (vals ! 0) (vals ! 1) (vals ! 2) us tz))))"

subsection \<open>\<open>strftime\<close>\<close>

text \<open>
  CPython 3.11 hands the directives \<open>%Y\<close>, \<open>%m\<close> and \<open>%d\<close> to the \<open>strftime\<close> of the platform's
  C library.  \<open>%m\<close> and \<open>%d\<close> are the month and the day of the month, zero-padded to two
  digits, everywhere.  \<open>%Y\<close> is the year as a decimal number, and how far it is zero-padded
  depends on the C library: to four digits on some (as the Python documentation shows it:
  \<open>0001\<close>, ..., \<open>9999\<close>), not at all on glibc, where the year 999 is printed as \<open>999\<close>.  The
  width to which the platform pads the year is the parameter \<open>year_width\<close>: 4 for a padding
  C library, 1 for glibc.  The notebook uses no other directive; any other one is left in
  the output as it is written.
\<close>

definition digit_char :: "nat \<Rightarrow> char" where
  "digit_char k = ''0123456789'' ! k"

fun decimal :: "nat \<Rightarrow> string" where
  "decimal n =
     (if n < 10 then [digit_char n]
      else decimal (n div 10) @ [digit_char (n mod 10)])"

declare decimal.simps [simp del]

definition zero_pad :: "nat \<Rightarrow> int \<Rightarrow> string" where
  "zero_pad width n =
     (let s = decimal (nat n) in replicate (width - length s) (CHR ''0'') @ s)"

definition glibc :: nat where "glibc = 1"
definition padding_libc :: nat where "padding_libc = 4"

fun strftime :: "nat \<Rightarrow> datetime \<Rightarrow> string \<Rightarrow> string" where
  "strftime year_width date [] = []"
| "strftime year_width date [c] = [c]"
| "strftime year_width date (c # d # fmt) =
     (if c = CHR ''%'' then
        (if d = CHR ''Y'' then zero_pad year_width (year date) @ strftime year_width date fmt
         else if d = CHR ''m'' then zero_pad 2 (month date) @ strftime year_width date fmt
         else if d = CHR ''d'' then zero_pad 2 (day date) @ strftime year_width date fmt
         else c # d # strftime year_width date fmt)
      else c # strftime year_width date (d # fmt))"

section \<open>The structured output: \<open>SummarySchema\<close>\<close>

subsection \<open>The validator of \<open>datePublished\<close>\<close>

text \<open>
  \<^verbatim>\<open>
  @field_validator("datePublished")
  def validate_date(cls, v):
      try:
          date = datetime.fromisoformat(v)
          return datetime.strftime(date, "%Y-%m-%d")
      except ValueError:
          raise ValueError("datePublished is not a valid date")
  \<close>
  The validator runs after the field has been checked to be a \<open>str\<close>.  Only a \<open>ValueError\<close> is
  caught; any other exception would pass through.  The first argument is the platform's
  \<open>year_width\<close>.
\<close>

definition validate_date :: "nat \<Rightarrow> string \<Rightarrow> exn + string" where
  "validate_date year_width v =
     (case fromisoformat v of
        Inr date \<Rightarrow> Inr (strftime year_width date ''%Y-%m-%d'')
      | Inl (ValueError _) \<Rightarrow> Inl (ValueError ''datePublished is not a valid date'')
      | Inl e \<Rightarrow> Inl e)"

text \<open>\<open>is_YYYY_MM_DD\<close> is the canonical calendar form the specification names: four digits,
  a dash, two digits, a dash, two digits.\<close>

definition is_YYYY_MM_DD :: "string \<Rightarrow> bool" where
  "is_YYYY_MM_DD s =
     (length s = 10 \<and> list_all is_digit (take 4 s) \<and> s ! 4 = CHR ''-'' \<and>
      list_all is_digit (take 2 (drop 5 s)) \<and> s ! 7 = CHR ''-'' \<and>
      list_all is_digit (drop 8 s))"

subsection \<open>ISO 8601 dates\<close>

text \<open>
  The specification speaks of ISO-8601-parseable strings.  The following predicates are
  written from the standard, independently of the parser above.  ISO 8601 writes a calendar
  date as year, month and day of the month, \<open>YYYY-MM-DD\<close> in the extended and \<open>YYYYMMDD\<close> in the
  basic format, and an ordinal date as year and day of the year, \<open>YYYY-DDD\<close> in the extended
  and \<open>YYYYDDD\<close> in the basic format.  The year has four digits, 0000 to 9999, in the
  proleptic Gregorian calendar, where the year 0000 is a leap year.
\<close>

definition digit_value :: "char \<Rightarrow> int" where
  "digit_value c = of_char c - of_char (CHR ''0'')"

definition number :: "string \<Rightarrow> int" where
  "number s = foldl (\<lambda>n c. n * 10 + digit_value c) 0 s"

definition digits :: "string \<Rightarrow> bool" where
  "digits s = list_all (\<lambda>c. c \<in> set ''0123456789'') s"

definition leap_year :: "int \<Rightarrow> bool" where
  "leap_year y = (4 dvd y \<and> (\<not> 100 dvd y \<or> 400 dvd y))"

definition days_of_month :: "int \<Rightarrow> int \<Rightarrow> int" where
  "days_of_month y m =
     (if m = 2 then (if leap_year y then 29 else 28)
      else if m \<in> {4, 6, 9, 11} then 30
      else 31)"

definition days_of_year :: "int \<Rightarrow> int" where
  "days_of_year y = (if leap_year y then 366 else 365)"

definition iso8601_calendar_date :: "string \<Rightarrow> bool" where
  "iso8601_calendar_date s =
     (let (y, m, d) =
            (if length s = 10 \<and> s ! 4 = CHR ''-'' \<and> s ! 7 = CHR ''-''
             then (take 4 s, take 2 (drop 5 s), drop 8 s)
             else if length s = 8 then (take 4 s, take 2 (drop 4 s), drop 6 s)
             else ([], [], []))
      in length y = 4 \<and> digits y \<and> digits m \<and> digits d \<and>
         1 \<le> number m \<and> number m \<le> 12 \<and>
         1 \<le> number d \<and> number d \<le> days_of_month (number y) (number m))"

definition iso8601_ordinal_date :: "string \<Rightarrow> bool" where
  "iso8601_ordinal_date s =
     (let (y, d) =
            (if length s = 8 \<and> s ! 4 = CHR ''-'' then (take 4 s, drop 5 s)
             else if length s = 7 then (take 4 s, drop 4 s)
             else ([], []))
      in length y = 4 \<and> digits y \<and> digits d \<and>
         1 \<le> number d \<and> number d \<le> days_of_year (number y))"

text \<open>The year a date of either kind starts with.\<close>

definition iso8601_year :: "string \<Rightarrow> int" where
  "iso8601_year s = number (take 4 s)"

subsection \<open>The fields\<close>

text \<open>
  \<^verbatim>\<open>
  class SummarySchema(BaseModel):
      title: str = Field(description="Title of the news article")
      url: str = Field(description="URL that was used to load the news article")
      summary: str = Field(description="Summary of the news article")
      content: str = Field(description="Full content of the news article")
      category: Literal["AI", "Hardware", ..., "Project Management"]
      datePublished: str = Field(description="Date when ... published, format YYYY-MM-DD")
      imageUrl: Optional[str] = Field(default=None, description="URL of the image ...")
      source: str = Field(description="Publishing source of the news article")
  \<close>
  The class body is data: a table of the declared fields, in declaration order, and a table
  of the field validators.  Instantiating the class validates keyword arguments against the
  tables, as the base class \<open>BaseModel\<close> does: a missing field takes its default or is an
  error, a value must fit the annotation, and the validators of the field run afterwards on
  the value.  An instance is the mapping from field names to values.
\<close>

datatype pyval =
    PyNone
  | PyBool bool
  | PyInt int
  | PyStr string
  | PyList "pyval list"
  | PyDict "(string \<times> pyval) list"

datatype annotation = Str | Optional_Str | Literal "string list"

record FieldInfo =
  annotation :: annotation
  default :: "pyval option"
  description :: "string option"

definition category_literals :: "string list" where
  "category_literals =
     [''AI'', ''Hardware'', ''Software Development'', ''Web Development'', ''Cloud Computing'',
      ''Data Science'', ''Machine Learning'', ''Cybersecurity'', ''Networking'', ''DevOps'',
      ''Mobile Development'', ''Game Development'', ''Database Management'', ''IT'',
      ''Project Management'']"

definition model_fields :: "(string \<times> FieldInfo) list" where
  "model_fields =
     [(''title'', \<lparr>annotation = Str, default = None,
         description = Some ''Title of the news article''\<rparr>),
      (''url'', \<lparr>annotation = Str, default = None,
         description = Some ''URL that was used to load the news article''\<rparr>),
      (''summary'', \<lparr>annotation = Str, default = None,
         description = Some ''Summary of the news article''\<rparr>),
      (''content'', \<lparr>annotation = Str, default = None,
         description = Some ''Full content of the news article''\<rparr>),
      (''category'', \<lparr>annotation = Literal category_literals, default = None,
         description = None\<rparr>),
      (''datePublished'', \<lparr>annotation = Str, default = None,
         description = Some ''Date when the news article was published, format YYYY-MM-DD''\<rparr>),
      (''imageUrl'', \<lparr>annotation = Optional_Str, default = Some PyNone,
         description = Some ''URL of the image associated with the news article''\<rparr>),
      (''source'', \<lparr>annotation = Str, default = None,
         description = Some ''Publishing source of the news article''\<rparr>)]"

text \<open>The decorator \<open>@field_validator("datePublished")\<close> registers \<open>validate_date\<close>.  Given
  anything but a \<open>str\<close>, \<open>fromisoformat\<close> raises a \<open>TypeError\<close>.\<close>

definition validate_date_value :: "nat \<Rightarrow> pyval \<Rightarrow> exn + pyval" where
  "validate_date_value year_width v =
     (case v of
        PyStr s \<Rightarrow>
          (case validate_date year_width s of Inl e \<Rightarrow> Inl e | Inr s' \<Rightarrow> Inr (PyStr s'))
      | _ \<Rightarrow> Inl (TypeError ''fromisoformat: argument must be str''))"

definition field_validators :: "nat \<Rightarrow> (string \<times> (pyval \<Rightarrow> exn + pyval)) list" where
  "field_validators year_width = [(''datePublished'', validate_date_value year_width)]"

subsection \<open>Validation by the base class\<close>

definition check_annotation :: "annotation \<Rightarrow> pyval \<Rightarrow> exn + pyval" where
  "check_annotation a v =
     (case a of
        Str \<Rightarrow>
          (case v of PyStr s \<Rightarrow> Inr v
           | _ \<Rightarrow> Inl (ValidationError ''Input should be a valid string''))
      | Optional_Str \<Rightarrow>
          (case v of PyNone \<Rightarrow> Inr v | PyStr s \<Rightarrow> Inr v
           | _ \<Rightarrow> Inl (ValidationError ''Input should be a valid string''))
      | Literal allowed \<Rightarrow>
          (case v of
             PyStr s \<Rightarrow>
               if s \<in> set allowed then Inr v
               else Inl (ValidationError ''Input should be one of the literals'')
           | _ \<Rightarrow> Inl (ValidationError ''Input should be one of the literals'')))"

text \<open>A \<open>ValueError\<close> raised by a validator is reported as a validation error; any other
  exception leaves the validation as it is.\<close>

fun run_validators :: "(pyval \<Rightarrow> exn + pyval) list \<Rightarrow> pyval \<Rightarrow> exn + pyval" where
  "run_validators [] v = Inr v"
| "run_validators (f # fs) v =
     (case f v of
        Inl (ValueError msg) \<Rightarrow> Inl (ValidationError (''Value error, '' @ msg))
      | Inl e \<Rightarrow> Inl e
      | Inr v' \<Rightarrow> run_validators fs v')"

definition validate_field ::
  "(string \<times> (pyval \<Rightarrow> exn + pyval)) list \<Rightarrow> string \<times> FieldInfo \<Rightarrow> (string \<rightharpoonup> pyval)
     \<Rightarrow> exn + pyval" where
  "validate_field validators field kwargs =
     (case kwargs (fst field) of
        None \<Rightarrow>
          (case default (snd field) of
             None \<Rightarrow> Inl (ValidationError ''Field required'')
           | Some d \<Rightarrow> Inr d)
      | Some v \<Rightarrow>
          (case check_annotation (annotation (snd field)) v of
             Inl e \<Rightarrow> Inl e
           | Inr v' \<Rightarrow>
               run_validators (map snd (filter (\<lambda>fv. fst fv = fst field) validators)) v'))"

fun validate_fields ::
  "(string \<times> (pyval \<Rightarrow> exn + pyval)) list \<Rightarrow> (string \<times> FieldInfo) list
     \<Rightarrow> (string \<rightharpoonup> pyval) \<Rightarrow> exn + (string \<rightharpoonup> pyval)" where
  "validate_fields validators [] kwargs = Inr Map.empty"
| "validate_fields validators (field # rest) kwargs =
     (case validate_field validators field kwargs of
        Inl e \<Rightarrow> Inl e
      | Inr v \<Rightarrow>
          (case validate_fields validators rest kwargs of
             Inl e \<Rightarrow> Inl e
           | Inr obj \<Rightarrow> Inr (obj(fst field \<mapsto> v))))"

text \<open>\<open>SummarySchema year_width kwargs\<close> is the constructor call \<open>SummarySchema(**kwargs)\<close> on a
  platform with the given \<open>year_width\<close>.\<close>

definition SummarySchema ::
  "nat \<Rightarrow> (string \<rightharpoonup> pyval) \<Rightarrow> exn + (string \<rightharpoonup> pyval)" where
  "SummarySchema year_width kwargs =
     validate_fields (field_validators year_width) model_fields kwargs"

section \<open>Effects\<close>

text \<open>
  The notebook talks to the outside world in three ways: it fetches a page with
  \<open>requests.get\<close>, it queries a model served by Ollama, and it prints.  A computation
  returns the list of the effects it performed, in order, together with its result or the
  exception that ended it.

  \<open>HttpGet\<close> records \<open>requests.get(url)\<close>, an ordinary (synchronous) call.  \<open>ModelInvoke\<close>
  records \<open>await model.ainvoke(messages)\<close> on the model of the given name, an awaited
  coroutine.  Both are network calls.  \<open>Print\<close> and \<open>PrettyPrint\<close> record \<open>print(s)\<close> and
  \<open>message.pretty_print()\<close>.
\<close>

datatype message =
    HumanMessage (content: string)
  | SystemMessage (content: string)
  | AIMessage (content: string)

datatype event =
    HttpGet string
  | ModelInvoke string "message list"
  | Print string
  | PrettyPrint message

fun network_call :: "event \<Rightarrow> bool" where
  "network_call (HttpGet url) = True"
| "network_call (ModelInvoke name messages) = True"
| "network_call (Print s) = False"
| "network_call (PrettyPrint m) = False"

fun awaited :: "event \<Rightarrow> bool" where
  "awaited (ModelInvoke name messages) = True"
| "awaited (HttpGet url) = False"
| "awaited (Print s) = False"
| "awaited (PrettyPrint m) = False"

fun is_fetch :: "event \<Rightarrow> bool" where
  "is_fetch (HttpGet url) = True"
| "is_fetch (ModelInvoke name messages) = False"
| "is_fetch (Print s) = False"
| "is_fetch (PrettyPrint m) = False"

type_synonym 'a io = "event list \<times> (exn + 'a)"

definition io_return :: "'a \<Rightarrow> 'a io" where
  "io_return x = ([], Inr x)"

definition io_raise :: "exn \<Rightarrow> 'a io" where
  "io_raise e = ([], Inl e)"

definition io_bind :: "'a io \<Rightarrow> ('a \<Rightarrow> 'b io) \<Rightarrow> 'b io" where
  "io_bind m f =
     (case m of
        (t, Inl e) \<Rightarrow> (t, Inl e)
      | (t, Inr x) \<Rightarrow> (case f x of (t', r) \<Rightarrow> (t @ t', r)))"

definition print :: "string \<Rightarrow> unit io" where
  "print s = ([Print s], Inr ())"

subsection \<open>What the notebook does not define\<close>

text \<open>
  \<open>ChatOllama\<close> is the client object \<open>get_model\<close> builds.  The record \<open>env\<close> collects what lies
  outside the notebook: the \<open>year_width\<close> of the platform, what \<open>requests.get\<close> answers for a
  URL, what structured output the served model produces for a list of messages (the object
  the output schema is instantiated with, or the exception of the client), and the
  JSON serialiser \<open>model_dump_json\<close> of the schema's base class (instance and indent).
\<close>

record Response =
  content :: string

record ChatOllama =
  model :: string
  temperature :: rat
  base_url :: string

record env =
  year_width :: nat
  requests_get :: "string \<Rightarrow> exn + Response"
  ollama :: "ChatOllama \<Rightarrow> message list \<Rightarrow> exn + (string \<rightharpoonup> pyval)"
  model_dump_json :: "(string \<rightharpoonup> pyval) \<Rightarrow> nat \<Rightarrow> string"

section \<open>The model factory\<close>

definition OLLAMA_URL :: string where
  "OLLAMA_URL = ''http://192.168.188.24:11434''"

text \<open>\<open>get_model(model_name, temperature=0.1)\<close>.\<close>

definition default_temperature :: rat where
  "default_temperature = 1 / 10"

definition get_model :: "string \<Rightarrow> rat \<Rightarrow> ChatOllama" where
  "get_model model_name temp =
     \<lparr>model = model_name, temperature = temp, base_url = OLLAMA_URL\<rparr>"

text \<open>
  \<open>model.with_structured_output(SummarySchema)\<close> yields a runnable whose \<open>ainvoke\<close> queries
  the model and hands what it answered to the output parser of the schema,
  \<open>PydanticOutputParser\<close>.  The parser instantiates the schema with the answer.  It catches the
  \<open>ValidationError\<close> of the schema and raises an \<open>OutputParserException\<close> in its place, whose
  message quotes the error; no other exception is caught.
\<close>

definition PydanticOutputParser :: "nat \<Rightarrow> (string \<rightharpoonup> pyval) \<Rightarrow> exn + (string \<rightharpoonup> pyval)" where
  "PydanticOutputParser w obj =
     (case SummarySchema w obj of
        Inl (ValidationError msg) \<Rightarrow>
          Inl (OutputParserException
                 (''Failed to parse SummarySchema from completion. Got: '' @ msg))
      | Inl e \<Rightarrow> Inl e
      | Inr response \<Rightarrow> Inr response)"

definition with_structured_output ::
  "env \<Rightarrow> ChatOllama \<Rightarrow> message list \<Rightarrow> (string \<rightharpoonup> pyval) io" where
  "with_structured_output env m messages =
     io_bind ([ModelInvoke (model m) messages], ollama env m messages)
       (\<lambda>obj. ([], PydanticOutputParser (year_width env) obj))"

section \<open>The agent graph\<close>

text \<open>
  The state of the graph is a \<open>MessagesState\<close>: the list under its only key \<open>messages\<close>.  A
  node maps the state to the messages to add; the reducer of the key appends them.  The
  builder collects named nodes and edges; compiling keeps both.
\<close>

type_synonym state = "message list"

type_synonym node = "state \<Rightarrow> message list io"

record StateGraph =
  nodes :: "(string \<times> node) list"
  edges :: "(string \<times> string) list"

definition START :: string where "START = ''__start__''"
definition END :: string where "END = ''__end__''"

definition new_StateGraph :: StateGraph where
  "new_StateGraph = \<lparr>nodes = [], edges = []\<rparr>"

definition add_node :: "string \<Rightarrow> node \<Rightarrow> StateGraph \<Rightarrow> StateGraph" where
  "add_node name action builder = builder\<lparr>nodes := nodes builder @ [(name, action)]\<rparr>"

definition add_edge :: "string \<Rightarrow> string \<Rightarrow> StateGraph \<Rightarrow> StateGraph" where
  "add_edge start_key end_key builder =
     builder\<lparr>edges := edges builder @ [(start_key, end_key)]\<rparr>"

record CompiledGraph =
  builder :: StateGraph

definition compile :: "StateGraph \<Rightarrow> CompiledGraph" where
  "compile b = \<lparr>builder = b\<rparr>"

definition add_messages :: "state \<Rightarrow> message list \<Rightarrow> state" where
  "add_messages left right = left @ right"

text \<open>\<open>state["messages"][-1]\<close> raises on an empty list.\<close>

definition last_message :: "state \<Rightarrow> message io" where
  "last_message messages =
     (if messages = [] then io_raise (IndexError ''list index out of range'')
      else io_return (last messages))"

text \<open>
  \<^verbatim>\<open>
  async def summarize(state: MessagesState):
      print("CHECKPOINT Summarize Node")
      html = state["messages"][-1]
      response = await model.ainvoke(
          [SystemMessage(content=f"You are a web page content summarizer. ..."),
           SystemMessage(content=html.content)])
      return { "messages":  AIMessage(content=response.model_dump_json(indent=2))}
  \<close>
\<close>

definition summarize :: "env \<Rightarrow> ChatOllama \<Rightarrow> node" where
  "summarize env m state =
     io_bind (print ''CHECKPOINT Summarize Node'') (\<lambda>_.
     io_bind (last_message state) (\<lambda>html.
     io_bind (with_structured_output env m
                [SystemMessage ''You are a web page content summarizer. Use the given output structure to summarize the page content.'',
                 SystemMessage (message.content html)]) (\<lambda>response.
     io_return [AIMessage (model_dump_json env response 2)])))"

definition get_article_extractor :: "env \<Rightarrow> ChatOllama \<Rightarrow> CompiledGraph" where
  "get_article_extractor env m =
     (let builder0 = new_StateGraph;
          builder1 = add_node ''summarize'' (summarize env m) builder0;
          builder2 = add_edge START ''summarize'' builder1
      in compile builder2)"

subsection \<open>Running a compiled graph\<close>

text \<open>
  A run proceeds in steps.  The nodes of a step are the targets of the edges leaving the
  nodes of the step before (at first, of the edges leaving \<open>START\<close>); they all read the same
  state, and what they return is added to it.  The run ends when a step has no node, and
  fails when it has not ended after \<open>recursion_limit\<close> steps.

  \<open>astream\<close> with \<open>stream_mode="values"\<close> is a generator: it yields the state as given,
  then the state after each step.  A generator is represented by the items it yields, each
  with the effects that took place while it was produced, and by the exception that ended
  it, if any, with the effects that came before.
\<close>

type_synonym 'a generator = "(event list \<times> 'a) list \<times> (event list \<times> exn) option"

definition recursion_limit :: nat where
  "recursion_limit = 25"

definition successors :: "CompiledGraph \<Rightarrow> string list \<Rightarrow> string list" where
  "successors g sources =
     remdups (map snd (filter (\<lambda>e. fst e \<in> set sources \<and> snd e \<noteq> END) (edges (builder g))))"

fun run_nodes :: "CompiledGraph \<Rightarrow> string list \<Rightarrow> state \<Rightarrow> message list io" where
  "run_nodes g [] st = io_return []"
| "run_nodes g (n # ns) st =
     (case map_of (nodes (builder g)) n of
        None \<Rightarrow> io_raise (KeyError n)
      | Some action \<Rightarrow>
          io_bind (action st) (\<lambda>update.
          io_bind (run_nodes g ns st) (\<lambda>updates.
          io_return (update @ updates))))"

fun pregel_loop :: "nat \<Rightarrow> CompiledGraph \<Rightarrow> string list \<Rightarrow> state \<Rightarrow> state generator" where
  "pregel_loop fuel g [] st = ([], None)"
| "pregel_loop 0 g (n # ns) st = ([], Some ([], GraphRecursionError))"
| "pregel_loop (Suc fuel) g (n # ns) st =
     (case run_nodes g (n # ns) st of
        (t, Inl e) \<Rightarrow> ([], Some (t, e))
      | (t, Inr updates) \<Rightarrow>
          (let st' = add_messages st updates
           in case pregel_loop fuel g (successors g (n # ns)) st' of
                (chunks, fin) \<Rightarrow> ((t, st') # chunks, fin)))"

definition astream :: "CompiledGraph \<Rightarrow> state \<Rightarrow> state generator" where
  "astream g input =
     (case pregel_loop recursion_limit g (successors g [START]) input of
        (chunks, fin) \<Rightarrow> (([], input) # chunks, fin))"

text \<open>\<open>ainvoke\<close> runs the graph to its end and returns the last state.\<close>

definition ainvoke :: "CompiledGraph \<Rightarrow> state \<Rightarrow> state io" where
  "ainvoke g input =
     (case astream g input of
        (chunks, None) \<Rightarrow> (concat (map fst chunks), Inr (snd (last chunks)))
      | (chunks, Some (t, e)) \<Rightarrow> (concat (map fst chunks) @ t, Inl e))"

section \<open>Prepared agents\<close>

text \<open>The dictionary \<open>AGENTS\<close>, in insertion order.\<close>

definition AGENTS :: "env \<Rightarrow> (string \<times> CompiledGraph) list" where
  "AGENTS env =
     [(''qwen3:8b'', get_article_extractor env (get_model ''qwen3:8b'' default_temperature)),
      (''granite3.2'', get_article_extractor env (get_model ''granite3.2'' default_temperature))]"

definition getitem :: "(string \<times> 'a) list \<Rightarrow> string \<Rightarrow> 'a io" where
  "getitem d k = (case map_of d k of None \<Rightarrow> io_raise (KeyError k) | Some v \<Rightarrow> io_return v)"

section \<open>HTML retrieval\<close>

text \<open>
  \<open>str\<close> of a \<open>bytes\<close> object is its literal: \<open>b\<close>, a quote, the bytes with the quote, the
  backslash, tab, newline and carriage return escaped, any other byte outside the printable
  ASCII range written as \<open>\xhh\<close>, and the quote again.  The quote is the single quote unless
  the bytes hold a single quote and no double quote.
\<close>

definition hexdigits :: string where
  "hexdigits = ''0123456789abcdef''"

definition repr_byte :: "char \<Rightarrow> char \<Rightarrow> string" where
  "repr_byte quote c =
     (if c = quote \<or> c = CHR 0x5C then [CHR 0x5C, c]
      else if c = CHR 0x09 then [CHR 0x5C, CHR ''t'']
      else if c = CHR 0x0A then [CHR 0x5C, CHR ''n'']
      else if c = CHR 0x0D then [CHR 0x5C, CHR ''r'']
      else if (of_char c :: nat) < 32 \<or> (of_char c :: nat) \<ge> 127 then
        [CHR 0x5C, CHR ''x'', hexdigits ! (of_char c div 16), hexdigits ! (of_char c mod 16)]
      else [c])"

definition bytes_quote :: "string \<Rightarrow> char" where
  "bytes_quote bs = (if CHR 0x27 \<in> set bs \<and> CHR 0x22 \<notin> set bs then CHR 0x22 else CHR 0x27)"

definition bytes_repr :: "string \<Rightarrow> string" where
  "bytes_repr bs =
     (let quote = bytes_quote bs
      in CHR ''b'' # quote # concat (map (repr_byte quote) bs) @ [quote])"

text \<open>
  \<^verbatim>\<open>
  def page2string(url: str) -> str:
      page_response = requests.get(url)
      html = page_response.content
      return f"Page content for '{url}':\n{html}"
  \<close>
\<close>

definition page2string :: "env \<Rightarrow> string \<Rightarrow> string io" where
  "page2string env url =
     io_bind ([HttpGet url], requests_get env url) (\<lambda>page_response.
       let html = Response.content page_response
       in io_return (''Page content for '' @ [CHR 0x27] @ url @ [CHR 0x27] @ '':'' @ [CHR 0x0A]
                       @ bytes_repr html))"

section \<open>The runners\<close>

text \<open>
  \<^verbatim>\<open>
  async def stream_and_pretty_print(agent: CompiledGraph, prompt: HumanMessage):
      message_index = 1 # skip showing the raw HTML
      async for chunk in agent.astream({"messages": [prompt]}, stream_mode="values"):
          new_messages = chunk["messages"][message_index:]
          message_index += len(new_messages)
          for message in new_messages:
              message.pretty_print()
  \<close>
  \<open>stream_loop\<close> is the loop over the chunks.  It returns the effects, those of producing the
  chunks and the prints between them, and the final value of \<open>message_index\<close>.
\<close>

fun stream_loop :: "nat \<Rightarrow> (event list \<times> state) list \<Rightarrow> event list \<times> nat" where
  "stream_loop message_index [] = ([], message_index)"
| "stream_loop message_index ((t, chunk) # rest) =
     (let new_messages = drop message_index chunk;
          message_index = message_index + length new_messages
      in case stream_loop message_index rest of
           (t', final_index) \<Rightarrow> (t @ map PrettyPrint new_messages @ t', final_index))"

text \<open>The messages a run pretty-printed, in order.\<close>

fun pretty_printed :: "event list \<Rightarrow> message list" where
  "pretty_printed [] = []"
| "pretty_printed (PrettyPrint m # t) = m # pretty_printed t"
| "pretty_printed (e # t) = pretty_printed t"

definition stream_and_pretty_print :: "CompiledGraph \<Rightarrow> message \<Rightarrow> unit io" where
  "stream_and_pretty_print agent prompt =
     (case astream agent [prompt] of
        (chunks, fin) \<Rightarrow>
          (case stream_loop 1 chunks of
             (t, final_index) \<Rightarrow>
               (case fin of
                  None \<Rightarrow> (t, Inr ())
                | Some (t', e) \<Rightarrow> (t @ t', Inl e))))"

text \<open>
  The batch runner is the cell
  \<^verbatim>\<open>
  html = page2string(url)
  prompt = HumanMessage(content=html)
  for model, agent in AGENTS.items():
      print(f"STARTING EXTRACTION WITH '{model}' AGENT")
      await stream_and_pretty_print(agent, prompt)
  \<close>
  where the cell sets \<open>url\<close> to \<open>batch_url\<close>.
\<close>

definition batch_url :: string where
  "batch_url = ''http://localhost:8000/page.html''"

fun for_agents :: "(string \<times> CompiledGraph) list \<Rightarrow> message \<Rightarrow> unit io" where
  "for_agents [] prompt = io_return ()"
| "for_agents ((model_name, agent) # rest) prompt =
     io_bind (print (''STARTING EXTRACTION WITH '' @ [CHR 0x27] @ model_name @ [CHR 0x27]
                       @ '' AGENT'')) (\<lambda>_.
     io_bind (stream_and_pretty_print agent prompt) (\<lambda>_.
     for_agents rest prompt))"

definition batch_runner :: "env \<Rightarrow> string \<Rightarrow> unit io" where
  "batch_runner env url =
     io_bind (page2string env url) (\<lambda>html.
       let prompt = HumanMessage html
       in for_agents (AGENTS env) prompt)"

text \<open>
  \<^verbatim>\<open>
  @tool
  async def summarize_article(url: str):
      html = page2string(url)
      prompt = HumanMessage(content=html)
      response = await AGENTS["granite3.2"].ainvoke({"messages": [prompt]})
      return response["messages"][-1].content
  \<close>
\<close>

definition summarize_article :: "env \<Rightarrow> string \<Rightarrow> string io" where
  "summarize_article env url =
     io_bind (page2string env url) (\<lambda>html.
       let prompt = HumanMessage html
       in io_bind (getitem (AGENTS env) ''granite3.2'') (\<lambda>agent.
          io_bind (ainvoke agent [prompt]) (\<lambda>response.
          io_bind (last_message response) (\<lambda>m.
          io_return (message.content m)))))"

section \<open>Notions used to state the properties\<close>

text \<open>The two messages the node \<open>summarize\<close> sends to the model for a page text, the effects
  of the node, the page text \<open>page2string\<close> builds from a response, and the outcome of the
  structured model call: the validated instance, or the exception of the client or of the
  output parser.\<close>

definition summarize_prompt :: "string \<Rightarrow> message list" where
  "summarize_prompt html =
     [SystemMessage ''You are a web page content summarizer. Use the given output structure to summarize the page content.'',
      SystemMessage html]"

definition summarize_events :: "ChatOllama \<Rightarrow> string \<Rightarrow> event list" where
  "summarize_events m html =
     [Print ''CHECKPOINT Summarize Node'', ModelInvoke (model m) (summarize_prompt html)]"

definition page_text :: "string \<Rightarrow> Response \<Rightarrow> string" where
  "page_text url page_response =
     ''Page content for '' @ [CHR 0x27] @ url @ [CHR 0x27] @ '':'' @ [CHR 0x0A]
       @ bytes_repr (Response.content page_response)"

definition structured :: "env \<Rightarrow> ChatOllama \<Rightarrow> string \<Rightarrow> exn + (string \<rightharpoonup> pyval)" where
  "structured env m html =
     (case ollama env m (summarize_prompt html) of
        Inl e \<Rightarrow> Inl e
      | Inr obj \<Rightarrow> PydanticOutputParser (year_width env) obj)"

definition qwen :: ChatOllama where
  "qwen = get_model ''qwen3:8b'' default_temperature"

definition granite :: ChatOllama where
  "granite = get_model ''granite3.2'' default_temperature"

definition starting :: "string \<Rightarrow> event" where
  "starting model_name =
     Print (''STARTING EXTRACTION WITH '' @ [CHR 0x27] @ model_name @ [CHR 0x27] @ '' AGENT'')"

text \<open>The reading of "a run performs a single non-blocking network call": the effects hold
  exactly one network call, and that call is awaited.\<close>

definition single_nonblocking_network_call :: "event list \<Rightarrow> bool" where
  "single_nonblocking_network_call t =
     (case filter network_call t of [ev] \<Rightarrow> awaited ev | _ \<Rightarrow> False)"

subsection \<open>An example environment\<close>

text \<open>A page, a model answer that fits the schema, the instance it validates to, and a
  serialiser that writes the fields of an instance one per line; they serve as concrete
  inputs.\<close>

definition example_page :: Response where
  "example_page =
     \<lparr>content = ''<p class='' @ [CHR 0x22] @ ''x'' @ [CHR 0x22] @ ''>It's news</p>'' @ [CHR 0x0A]\<rparr>"

definition example_kwargs :: "string \<rightharpoonup> pyval" where
  "example_kwargs =
     [''title'' \<mapsto> PyStr ''News'', ''url'' \<mapsto> PyStr batch_url, ''summary'' \<mapsto> PyStr ''Short'',
      ''content'' \<mapsto> PyStr ''It is news'', ''category'' \<mapsto> PyStr ''AI'',
      ''datePublished'' \<mapsto> PyStr ''20240229T101112Z'', ''source'' \<mapsto> PyStr ''localhost'']"

definition example_instance :: "string \<rightharpoonup> pyval" where
  "example_instance =
     [''source'' \<mapsto> PyStr ''localhost'', ''imageUrl'' \<mapsto> PyNone,
      ''datePublished'' \<mapsto> PyStr ''2024-02-29'', ''category'' \<mapsto> PyStr ''AI'',
      ''content'' \<mapsto> PyStr ''It is news'', ''summary'' \<mapsto> PyStr ''Short'',
      ''url'' \<mapsto> PyStr batch_url, ''title'' \<mapsto> PyStr ''News'']"

fun example_value :: "pyval option \<Rightarrow> string" where
  "example_value (Some (PyStr s)) = [CHR 0x22] @ s @ [CHR 0x22]"
| "example_value v = ''null''"

definition example_dump :: "(string \<rightharpoonup> pyval) \<Rightarrow> nat \<Rightarrow> string" where
  "example_dump obj indent =
     concat (map (\<lambda>f. replicate indent (CHR '' '') @ fst f @ '': '' @ example_value (obj (fst f))
                         @ [CHR 0x0A]) model_fields)"

definition example_env :: env where
  "example_env =
     \<lparr>year_width = glibc,
      requests_get = (\<lambda>url. Inr example_page),
      ollama = (\<lambda>m messages. Inr example_kwargs),
      model_dump_json = example_dump\<rparr>"

text \<open>The same with a page that cannot be fetched, with a model that answers with a
  category outside the enumeration, and with one of the two models missing on the server.\<close>

definition offline_env :: env where
  "offline_env = example_env\<lparr>requests_get := (\<lambda>url. Inl (RequestException ''Connection refused''))\<rparr>"

definition malformed_env :: env where
  "malformed_env =
     example_env\<lparr>ollama := (\<lambda>m messages. Inr (example_kwargs(''category'' \<mapsto> PyStr ''Sports'')))\<rparr>"

definition granite_down_env :: env where
  "granite_down_env =
     example_env\<lparr>ollama := (\<lambda>m messages.
        if model m = ''granite3.2'' then Inl (ModelError ''model not found'')
        else Inr example_kwargs)\<rparr>"

section \<open>Properties of the date validator\<close>

subsection \<open>Digits\<close>

lemma lt10_cases:
  "k < 10 \<Longrightarrow>
   k = 0 \<or> k = 1 \<or> k = 2 \<or> k = 3 \<or> k = 4 \<or> k = 5 \<or> k = 6 \<or> k = 7 \<or> k = 8 \<or> k = (9::nat)"
  by arith

lemma digit_of_digit_char: "k < 10 \<Longrightarrow> digit_of (digit_char k) = Some (int k)"
  using lt10_cases [of k] by (auto simp: digit_of_def digit_char_def)

lemma is_digit_digit_char: "k < 10 \<Longrightarrow> is_digit (digit_char k)"
  by (simp add: is_digit_def digit_of_digit_char)

lemma digit_of_not_sep: "digit_of c = Some v \<Longrightarrow> c \<noteq> CHR ''W'' \<and> c \<noteq> CHR ''-''"
  by (auto simp: digit_of_def)

lemma decimal_1: "n < 10 \<Longrightarrow> decimal n = [digit_char n]"
  by (subst decimal.simps) simp

lemma decimal_2:
  "10 \<le> n \<Longrightarrow> n < 100 \<Longrightarrow> decimal n = [digit_char (n div 10), digit_char (n mod 10)]"
  by (subst decimal.simps) (simp add: decimal_1)

lemma decimal_3:
  "100 \<le> n \<Longrightarrow> n < 1000 \<Longrightarrow>
   decimal n = [digit_char (n div 100), digit_char (n div 10 mod 10), digit_char (n mod 10)]"
  by (subst decimal.simps) (simp add: decimal_2 div_mult2_eq [symmetric])

lemma decimal_4:
  "1000 \<le> n \<Longrightarrow> n < 10000 \<Longrightarrow>
   decimal n = [digit_char (n div 1000), digit_char (n div 100 mod 10),
                digit_char (n div 10 mod 10), digit_char (n mod 10)]"
  by (subst decimal.simps) (simp add: decimal_3 div_mult2_eq [symmetric])

lemma digit_char_0: "digit_char 0 = CHR ''0''"
  by (simp add: digit_char_def)

lemma zero_pad_2:
  "0 \<le> n \<Longrightarrow> n < 100 \<Longrightarrow> zero_pad 2 n = [digit_char (nat n div 10), digit_char (nat n mod 10)]"
  by (cases "nat n < 10") (auto simp: zero_pad_def decimal_1 decimal_2 digit_char_0)

lemma zero_pad_4:
  assumes "0 \<le> n" "n < 10000"
  shows "zero_pad 4 n = [digit_char (nat n div 1000), digit_char (nat n div 100 mod 10),
                         digit_char (nat n div 10 mod 10), digit_char (nat n mod 10)]"
proof -
  note z = digit_char_0
  consider "nat n < 10" | "10 \<le> nat n" "nat n < 100" | "100 \<le> nat n" "nat n < 1000"
    | "1000 \<le> nat n" "nat n < 10000"
    using assms by linarith
  then show ?thesis
  proof cases
    case 1
    then show ?thesis by (simp add: zero_pad_def decimal_1 z numeral_3_eq_3)
  next
    case 2
    then show ?thesis by (simp add: zero_pad_def decimal_2 z numeral_2_eq_2)
  next
    case 3
    then show ?thesis by (simp add: zero_pad_def decimal_3 z)
  next
    case 4
    then show ?thesis by (simp add: zero_pad_def decimal_4)
  qed
qed

lemma digits4_nat:
  "((n div 1000 * 10 + n div 100 mod 10) * 10 + n div 10 mod 10) * 10 + n mod 10 = (n::nat)"
proof -
  have a: "n div 100 = n div 10 div 10" "n div 1000 = n div 10 div 10 div 10"
    by (simp_all add: div_mult2_eq)
  show ?thesis unfolding a by simp
qed

lemma digits4:
  assumes "0 \<le> n"
  shows "((int (nat n div 1000) * 10 + int (nat n div 100 mod 10)) * 10
            + int (nat n div 10 mod 10)) * 10 + int (nat n mod 10) = n"
proof -
  have "int (((nat n div 1000 * 10 + nat n div 100 mod 10) * 10 + nat n div 10 mod 10) * 10
          + nat n mod 10) = int (nat n)"
    by (simp only: digits4_nat)
  then show ?thesis using assms by simp
qed

lemma digits2:
  assumes "0 \<le> n"
  shows "int (nat n div 10) * 10 + int (nat n mod 10) = n"
proof -
  have "int (nat n div 10) * 10 + int (nat n mod 10) = int (nat n div 10 * 10 + nat n mod 10)"
    by (simp only: of_nat_add of_nat_mult of_nat_numeral)
  also have "\<dots> = int (nat n)" by (simp only: div_mult_mod_eq)
  also have "\<dots> = n" using assms by simp
  finally show ?thesis .
qed

subsection \<open>What the parser returns\<close>

lemma new_datetime_fields:
  "new_datetime y m d hh mm ss us tz = Inr date \<Longrightarrow>
     date = \<lparr>year = y, month = m, day = d, hour = hh, minute = mm, second = ss,
             microsecond = us, tzinfo = tz\<rparr> \<and>
     1 \<le> y \<and> y \<le> 9999 \<and> 1 \<le> m \<and> m \<le> 12 \<and> 1 \<le> d \<and> d \<le> days_in_month y m"
  by (simp add: new_datetime_def MINYEAR_def MAXYEAR_def split: if_splits)

lemma new_datetime_ValueError:
  "new_datetime y m d hh mm ss us tz = Inl e \<Longrightarrow> \<exists>msg. e = ValueError msg"
  by (auto simp add: new_datetime_def split: if_splits)

lemma tzinfo_ValueError:
  "tzinfo_from_isoformat_results rv tzoffset tzusec = Inl e \<Longrightarrow> \<exists>msg. e = ValueError msg"
  by (auto simp add: tzinfo_from_isoformat_results_def Let_def split: if_splits)

lemma fromisoformat_Inr_new_datetime:
  "fromisoformat v = Inr date \<Longrightarrow>
   \<exists>y m d hh mm ss us tz. new_datetime y m d hh mm ss us tz = Inr date"
  unfolding fromisoformat_def Let_def
  by (simp split: if_splits option.splits prod.splits sum.splits) blast+

lemma fromisoformat_fields:
  assumes "fromisoformat v = Inr date"
  shows "1 \<le> year date \<and> year date \<le> 9999 \<and> 1 \<le> month date \<and> month date \<le> 12 \<and>
         1 \<le> day date \<and> day date \<le> days_in_month (year date) (month date)"
proof -
  obtain y m d hh mm ss us tz where "new_datetime y m d hh mm ss us tz = Inr date"
    using fromisoformat_Inr_new_datetime [OF assms] by blast
  from new_datetime_fields [OF this] show ?thesis by simp
qed

lemma fromisoformat_ValueError:
  "fromisoformat v = Inl e \<Longrightarrow> \<exists>msg. e = ValueError msg"
  unfolding fromisoformat_def Let_def invalid_isoformat_string_def
  by (simp split: if_splits option.splits prod.splits sum.splits)
     (blast dest: new_datetime_ValueError tzinfo_ValueError)+

lemma days_in_month_le:
  assumes "1 \<le> m" "m \<le> 12"
  shows "days_in_month y m \<le> 31"
proof -
  have "m = 1 \<or> m = 2 \<or> m = 3 \<or> m = 4 \<or> m = 5 \<or> m = 6 \<or> m = 7 \<or> m = 8 \<or> m = 9 \<or>
        m = 10 \<or> m = 11 \<or> m = 12"
    using assms by arith
  then show ?thesis by (auto simp: days_in_month_def DAYS_IN_MONTH_def)
qed

subsection \<open>Reading the canonical form back\<close>

lemma fromisoformat_canonical:
  assumes "digit_of c0 = Some v0" "digit_of c1 = Some v1" "digit_of c2 = Some v2"
    "digit_of c3 = Some v3" "digit_of c5 = Some v5" "digit_of c6 = Some v6"
    "digit_of c8 = Some v8" "digit_of c9 = Some v9"
  shows "fromisoformat [c0, c1, c2, c3, CHR ''-'', c5, c6, CHR ''-'', c8, c9] =
         new_datetime (((v0 * 10 + v1) * 10 + v2) * 10 + v3) (v5 * 10 + v6) (v8 * 10 + v9)
           0 0 0 0 None"
  using assms digit_of_not_sep [OF assms(5)]
  by (simp add: fromisoformat_def find_isoformat_datetime_separator_def parse_isoformat_date_def
      byte_at_def eval_nat_numeral tzinfo_from_isoformat_results_def)

lemma strftime_Ymd:
  "strftime w date ''%Y-%m-%d'' =
     zero_pad w (year date) @ ''-'' @ zero_pad 2 (month date) @ ''-'' @ zero_pad 2 (day date)"
  by simp

text \<open>From the year 1000 on the year has four digits, whatever the platform pads to.\<close>

lemma zero_pad_year:
  assumes "1000 \<le> y" "y \<le> 9999" "w \<le> 4"
  shows "zero_pad w y = zero_pad 4 y"
proof -
  have "length (decimal (nat y)) = 4" using assms by (simp add: decimal_4)
  then show ?thesis using assms by (simp add: zero_pad_def)
qed

lemma fromisoformat_strftime:
  assumes "1 \<le> y" "y \<le> 9999" "1 \<le> m" "m \<le> 12" "1 \<le> d" "d \<le> days_in_month y m"
  shows "fromisoformat (zero_pad 4 y @ ''-'' @ zero_pad 2 m @ ''-'' @ zero_pad 2 d) =
         Inr \<lparr>year = y, month = m, day = d, hour = 0, minute = 0, second = 0,
              microsecond = 0, tzinfo = None\<rparr>"
proof -
  have d31: "d \<le> 31" using days_in_month_le [OF assms(3,4), of y] assms(6) by linarith
  have lt: "nat y div 1000 < 10" "nat y div 100 mod 10 < 10" "nat y div 10 mod 10 < 10"
    "nat y mod 10 < 10" "nat m div 10 < 10" "nat m mod 10 < 10" "nat d div 10 < 10"
    "nat d mod 10 < 10"
    using assms d31 by auto
  have pads: "zero_pad 4 y @ ''-'' @ zero_pad 2 m @ ''-'' @ zero_pad 2 d =
     [digit_char (nat y div 1000), digit_char (nat y div 100 mod 10),
      digit_char (nat y div 10 mod 10), digit_char (nat y mod 10), CHR ''-'',
      digit_char (nat m div 10), digit_char (nat m mod 10), CHR ''-'',
      digit_char (nat d div 10), digit_char (nat d mod 10)]"
    using assms d31 by (simp add: zero_pad_4 zero_pad_2)
  have "fromisoformat (zero_pad 4 y @ ''-'' @ zero_pad 2 m @ ''-'' @ zero_pad 2 d) =
        new_datetime y m d 0 0 0 0 None"
    unfolding pads using assms d31
    by (simp only: fromisoformat_canonical [OF lt(1-8) [THEN digit_of_digit_char]] digits4 digits2)
  then show ?thesis using assms
    by (simp add: new_datetime_def MINYEAR_def MAXYEAR_def)
qed

lemma is_YYYY_MM_DD_pads:
  assumes "1 \<le> y" "y \<le> 9999" "1 \<le> m" "m \<le> 12" "1 \<le> d" "d \<le> 31"
  shows "is_YYYY_MM_DD (zero_pad 4 y @ ''-'' @ zero_pad 2 m @ ''-'' @ zero_pad 2 d)"
proof -
  have lt: "nat y div 1000 < 10" "nat y div 100 mod 10 < 10" "nat y div 10 mod 10 < 10"
    "nat y mod 10 < 10" "nat m div 10 < 10" "nat m mod 10 < 10" "nat d div 10 < 10"
    "nat d mod 10 < 10"
    using assms by auto
  show ?thesis using assms lt
    by (simp add: zero_pad_4 zero_pad_2 is_YYYY_MM_DD_def is_digit_digit_char)
qed

text \<open>The validator on a parseable string, on any platform.\<close>

lemma validate_date_strftime:
  "fromisoformat v = Inr date \<Longrightarrow>
   validate_date w v =
     Inr (zero_pad w (year date) @ ''-'' @ zero_pad 2 (month date) @ ''-''
            @ zero_pad 2 (day date))"
  by (simp add: validate_date_def)

lemma validate_date_Inl:
  assumes "fromisoformat v = Inl e"
  shows "validate_date w v = Inl (ValueError ''datePublished is not a valid date'')"
proof -
  obtain msg where "e = ValueError msg" using fromisoformat_ValueError [OF assms] by blast
  with assms show ?thesis by (simp add: validate_date_def)
qed

text \<open>
  Where the year is written on four digits, that is, on a platform that pads the year to
  four digits or for a year from 1000 on, the validator returns the date of the parsed
  datetime in the canonical form, and that form reads back as the same calendar date.
\<close>

lemma validate_date_Inr:
  assumes "fromisoformat v = Inr date"
    and "w = 4 \<or> (w \<le> 4 \<and> 1000 \<le> year date)"
  shows "validate_date w v =
           Inr (zero_pad 4 (year date) @ ''-'' @ zero_pad 2 (month date) @ ''-''
                  @ zero_pad 2 (day date))"
    and "is_YYYY_MM_DD (zero_pad 4 (year date) @ ''-'' @ zero_pad 2 (month date) @ ''-''
                          @ zero_pad 2 (day date))"
    and "fromisoformat (zero_pad 4 (year date) @ ''-'' @ zero_pad 2 (month date) @ ''-''
                          @ zero_pad 2 (day date)) =
           Inr \<lparr>year = year date, month = month date, day = day date, hour = 0, minute = 0,
                second = 0, microsecond = 0, tzinfo = None\<rparr>"
proof -
  have f: "1 \<le> year date" "year date \<le> 9999" "1 \<le> month date" "month date \<le> 12"
    "1 \<le> day date" "day date \<le> days_in_month (year date) (month date)"
    using fromisoformat_fields [OF assms(1)] by simp_all
  have d31: "day date \<le> 31"
    using days_in_month_le [OF f(3,4), of "year date"] f(6) by linarith
  have pad: "zero_pad w (year date) = zero_pad 4 (year date)"
    using assms(2) zero_pad_year [of "year date" w] f(2) by auto
  show "validate_date w v =
           Inr (zero_pad 4 (year date) @ ''-'' @ zero_pad 2 (month date) @ ''-''
                  @ zero_pad 2 (day date))"
    using validate_date_strftime [OF assms(1), of w] pad by simp
  show "is_YYYY_MM_DD (zero_pad 4 (year date) @ ''-'' @ zero_pad 2 (month date) @ ''-''
                          @ zero_pad 2 (day date))"
    by (rule is_YYYY_MM_DD_pads [OF f(1-5) d31])
  show "fromisoformat (zero_pad 4 (year date) @ ''-'' @ zero_pad 2 (month date) @ ''-''
                          @ zero_pad 2 (day date)) =
           Inr \<lparr>year = year date, month = month date, day = day date, hour = 0, minute = 0,
                second = 0, microsecond = 0, tzinfo = None\<rparr>"
    by (rule fromisoformat_strftime [OF f])
qed

lemma validate_date_normalizes_four_digit_year:
  assumes "fromisoformat v = Inr date"
    and "w = 4 \<or> (w \<le> 4 \<and> 1000 \<le> year date)"
  shows "\<exists>s. validate_date w v = Inr s \<and> is_YYYY_MM_DD s \<and>
           s = zero_pad 4 (year date) @ ''-'' @ zero_pad 2 (month date) @ ''-''
                 @ zero_pad 2 (day date) \<and>
           fromisoformat s = Inr \<lparr>year = year date, month = month date, day = day date,
                                   hour = 0, minute = 0, second = 0, microsecond = 0,
                                   tzinfo = None\<rparr>"
  using validate_date_Inr [OF assms] by blast

lemma validate_date_idempotent_four_digit_year:
  assumes "validate_date w v = Inr s"
    and "fromisoformat v = Inr date"
    and "w = 4 \<or> (w \<le> 4 \<and> 1000 \<le> year date)"
  shows "validate_date w s = Inr s"
proof -
  let ?s = "zero_pad 4 (year date) @ ''-'' @ zero_pad 2 (month date) @ ''-''
              @ zero_pad 2 (day date)"
  let ?d = "\<lparr>year = year date, month = month date, day = day date, hour = 0, minute = 0,
             second = 0, microsecond = 0, tzinfo = None\<rparr>"
  have s: "s = ?s" using validate_date_Inr(1) [OF assms(2,3)] assms(1) by simp
  have r: "fromisoformat ?s = Inr ?d" by (rule validate_date_Inr(3) [OF assms(2,3)])
  have "w = 4 \<or> (w \<le> 4 \<and> 1000 \<le> year ?d)" using assms(3) by simp
  from validate_date_Inr(1) [OF r this] have "validate_date w ?s = Inr ?s" by simp
  then show ?thesis using s by simp
qed

lemma validate_date_example: "validate_date glibc ''20240229T101112Z'' = Inr ''2024-02-29''"
  by code_simp

text \<open>
  Claim C1.  The validator is meant to return, for every string that
  \<open>datetime.fromisoformat\<close> parses, the parsed date in the canonical form \<open>YYYY-MM-DD\<close>.  On
  glibc it does not for a year below 1000: \<open>0999-01-01\<close> is parsed and comes back as
  \<open>999-01-01\<close>, which is not of the form \<open>YYYY-MM-DD\<close>.  (It does for every year from 1000
  on, and for every year on a platform that pads the year:
  \<open>validate_date_normalizes_four_digit_year\<close>.)
\<close>

theorem validate_date_unpadded_year:
  "fromisoformat ''0999-01-01'' =
     Inr \<lparr>year = 999, month = 1, day = 1, hour = 0, minute = 0, second = 0, microsecond = 0,
          tzinfo = None\<rparr> \<and>
   validate_date glibc ''0999-01-01'' = Inr ''999-01-01'' \<and>
   \<not> is_YYYY_MM_DD ''999-01-01'' \<and>
   validate_date padding_libc ''0999-01-01'' = Inr ''0999-01-01''"
  by code_simp

subsection \<open>The dates of ISO 8601 and the parser\<close>

lemma digits_char:
  "c \<in> set ''0123456789'' \<Longrightarrow>
   digit_of c = Some (digit_value c) \<and> 0 \<le> digit_value c \<and> digit_value c \<le> 9"
  by (auto simp: digit_of_def digit_value_def)

lemma digit_of_NUL: "digit_of (CHR 0x00) = None"
  by (simp add: digit_of_def)

lemma number_2: "number [a, b] = digit_value a * 10 + digit_value b"
  by (simp add: number_def)

lemma number_3: "number [a, b, c] = (digit_value a * 10 + digit_value b) * 10 + digit_value c"
  by (simp add: number_def)

lemma number_4:
  "number [a, b, c, d] =
     ((digit_value a * 10 + digit_value b) * 10 + digit_value c) * 10 + digit_value d"
  by (simp add: number_def)

lemma length_7: "length s = 7 \<Longrightarrow> \<exists>c0 c1 c2 c3 c4 c5 c6. s = [c0, c1, c2, c3, c4, c5, c6]"
  by (auto simp: eval_nat_numeral length_Suc_conv)

lemma length_8:
  "length s = 8 \<Longrightarrow> \<exists>c0 c1 c2 c3 c4 c5 c6 c7. s = [c0, c1, c2, c3, c4, c5, c6, c7]"
  by (auto simp: eval_nat_numeral length_Suc_conv)

lemma length_10:
  "length s = 10 \<Longrightarrow>
   \<exists>c0 c1 c2 c3 c4 c5 c6 c7 c8 c9. s = [c0, c1, c2, c3, c4, c5, c6, c7, c8, c9]"
  by (auto simp: eval_nat_numeral length_Suc_conv)

lemma is_leap_leap_year: "is_leap y = leap_year y"
  by (simp add: is_leap_def leap_year_def dvd_eq_mod_eq_0)

lemma days_in_month_days_of_month:
  assumes "1 \<le> m" "m \<le> 12"
  shows "days_in_month y m = days_of_month y m"
proof -
  have "m = 1 \<or> m = 2 \<or> m = 3 \<or> m = 4 \<or> m = 5 \<or> m = 6 \<or> m = 7 \<or> m = 8 \<or> m = 9 \<or>
        m = 10 \<or> m = 11 \<or> m = 12"
    using assms by arith
  then show ?thesis
    by (auto simp: days_in_month_def days_of_month_def DAYS_IN_MONTH_def is_leap_leap_year)
qed

lemma fromisoformat_basic:
  assumes "digit_of c0 = Some v0" "digit_of c1 = Some v1" "digit_of c2 = Some v2"
    "digit_of c3 = Some v3" "digit_of c4 = Some v4" "digit_of c5 = Some v5"
    "digit_of c6 = Some v6" "digit_of c7 = Some v7"
  shows "fromisoformat [c0, c1, c2, c3, c4, c5, c6, c7] =
         new_datetime (((v0 * 10 + v1) * 10 + v2) * 10 + v3) (v4 * 10 + v5) (v6 * 10 + v7)
           0 0 0 0 None"
  using assms digit_of_not_sep [OF assms(5)]
  by (simp add: fromisoformat_def find_isoformat_datetime_separator_def parse_isoformat_date_def
      byte_at_def eval_nat_numeral tzinfo_from_isoformat_results_def)

lemma fromisoformat_ordinal_extended:
  assumes "digit_of c0 = Some v0" "digit_of c1 = Some v1" "digit_of c2 = Some v2"
    "digit_of c3 = Some v3" "digit_of c5 = Some v5" "digit_of c6 = Some v6"
    "digit_of c7 = Some v7"
  shows "fromisoformat [c0, c1, c2, c3, CHR ''-'', c5, c6, c7] = Inl invalid_isoformat_string"
  using assms digit_of_not_sep [OF assms(5)] digit_of_not_sep [OF assms(7)]
  by (simp add: fromisoformat_def find_isoformat_datetime_separator_def parse_isoformat_date_def
      byte_at_def eval_nat_numeral)

lemma fromisoformat_ordinal_basic:
  assumes "digit_of c0 = Some v0" "digit_of c1 = Some v1" "digit_of c2 = Some v2"
    "digit_of c3 = Some v3" "digit_of c4 = Some v4" "digit_of c5 = Some v5"
    "digit_of c6 = Some v6"
  shows "fromisoformat [c0, c1, c2, c3, c4, c5, c6] = Inl invalid_isoformat_string"
  using assms digit_of_not_sep [OF assms(5)]
  by (simp add: fromisoformat_def find_isoformat_datetime_separator_def parse_isoformat_date_def
      byte_at_def eval_nat_numeral digit_of_NUL)

lemma iso8601_calendar_date_parsed:
  assumes "iso8601_calendar_date v"
  shows "\<exists>m d. fromisoformat v = new_datetime (iso8601_year v) m d 0 0 0 0 None \<and>
           0 \<le> iso8601_year v \<and> iso8601_year v \<le> 9999 \<and>
           1 \<le> m \<and> m \<le> 12 \<and> 1 \<le> d \<and> d \<le> days_in_month (iso8601_year v) m"
proof -
  consider (extended) "length v = 10" "v ! 4 = CHR ''-''" "v ! 7 = CHR ''-''"
    | (basic) "length v = 8"
    using assms by (auto simp: iso8601_calendar_date_def split: if_splits)
  then show ?thesis
  proof cases
    case extended
    obtain c0 c1 c2 c3 c4 c5 c6 c7 c8 c9 where v: "v = [c0, c1, c2, c3, c4, c5, c6, c7, c8, c9]"
      using length_10 [OF extended(1)] by blast
    have sep: "c4 = CHR ''-''" "c7 = CHR ''-''" using extended(2,3) v by simp_all
    have iso: "c0 \<in> set ''0123456789''" "c1 \<in> set ''0123456789''" "c2 \<in> set ''0123456789''"
      "c3 \<in> set ''0123456789''" "c5 \<in> set ''0123456789''" "c6 \<in> set ''0123456789''"
      "c8 \<in> set ''0123456789''" "c9 \<in> set ''0123456789''"
      and m: "1 \<le> number [c5, c6]" "number [c5, c6] \<le> 12"
      and d: "1 \<le> number [c8, c9]"
        "number [c8, c9] \<le> days_of_month (number [c0, c1, c2, c3]) (number [c5, c6])"
      using assms unfolding v sep by (simp_all add: iso8601_calendar_date_def digits_def)
    note dg = iso [THEN digits_char]
    have f: "fromisoformat v =
        new_datetime (number [c0, c1, c2, c3]) (number [c5, c6]) (number [c8, c9]) 0 0 0 0 None"
      unfolding v sep number_4 number_2
      by (rule fromisoformat_canonical) (simp_all add: dg)
    have y: "iso8601_year v = number [c0, c1, c2, c3]" by (simp add: iso8601_year_def v)
    have r: "0 \<le> number [c0, c1, c2, c3]" "number [c0, c1, c2, c3] \<le> 9999"
      unfolding number_4 using dg(1-4) by auto
    show ?thesis
      unfolding y using f m d r days_in_month_days_of_month [OF m]
      by (intro exI [of _ "number [c5, c6]"] exI [of _ "number [c8, c9]"]) simp
  next
    case basic
    obtain c0 c1 c2 c3 c4 c5 c6 c7 where v: "v = [c0, c1, c2, c3, c4, c5, c6, c7]"
      using length_8 [OF basic] by blast
    have iso: "c0 \<in> set ''0123456789''" "c1 \<in> set ''0123456789''" "c2 \<in> set ''0123456789''"
      "c3 \<in> set ''0123456789''" "c4 \<in> set ''0123456789''" "c5 \<in> set ''0123456789''"
      "c6 \<in> set ''0123456789''" "c7 \<in> set ''0123456789''"
      and m: "1 \<le> number [c4, c5]" "number [c4, c5] \<le> 12"
      and d: "1 \<le> number [c6, c7]"
        "number [c6, c7] \<le> days_of_month (number [c0, c1, c2, c3]) (number [c4, c5])"
      using assms unfolding v by (simp_all add: iso8601_calendar_date_def digits_def)
    note dg = iso [THEN digits_char]
    have f: "fromisoformat v =
        new_datetime (number [c0, c1, c2, c3]) (number [c4, c5]) (number [c6, c7]) 0 0 0 0 None"
      unfolding v number_4 number_2
      by (rule fromisoformat_basic) (simp_all add: dg)
    have y: "iso8601_year v = number [c0, c1, c2, c3]" by (simp add: iso8601_year_def v)
    have r: "0 \<le> number [c0, c1, c2, c3]" "number [c0, c1, c2, c3] \<le> 9999"
      unfolding number_4 using dg(1-4) by auto
    show ?thesis
      unfolding y using f m d r days_in_month_days_of_month [OF m]
      by (intro exI [of _ "number [c4, c5]"] exI [of _ "number [c6, c7]"]) simp
  qed
qed

lemma iso8601_calendar_date_accepted:
  assumes "iso8601_calendar_date v" "1 \<le> iso8601_year v"
  shows "\<exists>date. fromisoformat v = Inr date"
proof -
  obtain m d where "fromisoformat v = new_datetime (iso8601_year v) m d 0 0 0 0 None"
    "iso8601_year v \<le> 9999" "1 \<le> m" "m \<le> 12" "1 \<le> d" "d \<le> days_in_month (iso8601_year v) m"
    using iso8601_calendar_date_parsed [OF assms(1)] by blast
  then show ?thesis using assms(2) by (simp add: new_datetime_def MINYEAR_def MAXYEAR_def)
qed

lemma iso8601_calendar_date_year_0:
  assumes "iso8601_calendar_date v" "iso8601_year v = 0"
  shows "fromisoformat v = Inl (ValueError ''year is out of range'')"
proof -
  obtain m d where "fromisoformat v = new_datetime (iso8601_year v) m d 0 0 0 0 None"
    using iso8601_calendar_date_parsed [OF assms(1)] by blast
  then show ?thesis using assms(2) by (simp add: new_datetime_def MINYEAR_def)
qed

lemma iso8601_ordinal_date_rejected:
  assumes "iso8601_ordinal_date v"
  shows "fromisoformat v = Inl invalid_isoformat_string"
proof -
  consider (extended) "length v = 8" "v ! 4 = CHR ''-''"
    | (basic) "length v = 7"
    using assms by (auto simp: iso8601_ordinal_date_def split: if_splits)
  then show ?thesis
  proof cases
    case extended
    obtain c0 c1 c2 c3 c4 c5 c6 c7 where v: "v = [c0, c1, c2, c3, c4, c5, c6, c7]"
      using length_8 [OF extended(1)] by blast
    have sep: "c4 = CHR ''-''" using extended(2) v by simp
    have iso: "c0 \<in> set ''0123456789''" "c1 \<in> set ''0123456789''" "c2 \<in> set ''0123456789''"
      "c3 \<in> set ''0123456789''" "c5 \<in> set ''0123456789''" "c6 \<in> set ''0123456789''"
      "c7 \<in> set ''0123456789''"
      using assms unfolding v sep by (simp_all add: iso8601_ordinal_date_def digits_def)
    note dg = iso [THEN digits_char]
    show ?thesis unfolding v sep
      by (rule fromisoformat_ordinal_extended) (simp_all add: dg)
  next
    case basic
    obtain c0 c1 c2 c3 c4 c5 c6 where v: "v = [c0, c1, c2, c3, c4, c5, c6]"
      using length_7 [OF basic] by blast
    have iso: "c0 \<in> set ''0123456789''" "c1 \<in> set ''0123456789''" "c2 \<in> set ''0123456789''"
      "c3 \<in> set ''0123456789''" "c4 \<in> set ''0123456789''" "c5 \<in> set ''0123456789''"
      "c6 \<in> set ''0123456789''"
      using assms unfolding v by (simp_all add: iso8601_ordinal_date_def digits_def)
    note dg = iso [THEN digits_char]
    show ?thesis unfolding v
      by (rule fromisoformat_ordinal_basic) (simp_all add: dg)
  qed
qed

lemma of_char_eq_D: "(of_char c :: int) = of_char d \<Longrightarrow> c = d"
  by (simp only: of_char_eq_iff)

lemma digit_of_Some_digits:
  assumes "digit_of c = Some t"
  shows "c \<in> set ''0123456789''"
proof -
  have "48 \<le> (of_char c :: int) \<and> (of_char c :: int) \<le> 57"
    using assms by (simp add: digit_of_def Let_def split: if_splits)
  then have "(of_char c :: int) = 48 \<or> (of_char c :: int) = 49 \<or> (of_char c :: int) = 50 \<or>
    (of_char c :: int) = 51 \<or> (of_char c :: int) = 52 \<or> (of_char c :: int) = 53 \<or>
    (of_char c :: int) = 54 \<or> (of_char c :: int) = 55 \<or> (of_char c :: int) = 56 \<or>
    (of_char c :: int) = 57"
    by arith
  then have "c = CHR ''0'' \<or> c = CHR ''1'' \<or> c = CHR ''2'' \<or> c = CHR ''3'' \<or> c = CHR ''4'' \<or>
    c = CHR ''5'' \<or> c = CHR ''6'' \<or> c = CHR ''7'' \<or> c = CHR ''8'' \<or> c = CHR ''9''"
    using of_char_eq_D [of c "CHR ''0''"] of_char_eq_D [of c "CHR ''1''"]
      of_char_eq_D [of c "CHR ''2''"] of_char_eq_D [of c "CHR ''3''"]
      of_char_eq_D [of c "CHR ''4''"] of_char_eq_D [of c "CHR ''5''"]
      of_char_eq_D [of c "CHR ''6''"] of_char_eq_D [of c "CHR ''7''"]
      of_char_eq_D [of c "CHR ''8''"] of_char_eq_D [of c "CHR ''9''"]
    by simp blast
  then show ?thesis by auto
qed

lemma parse_digits_4_digits:
  assumes "parse_digits s 0 0 4 = Some r" "4 \<le> length s"
  shows "digits (take 4 s)"
proof -
  obtain c0 c1 c2 c3 rest where s: "s = c0 # c1 # c2 # c3 # rest"
    using assms(2) by (auto simp: eval_nat_numeral Suc_le_length_iff)
  show ?thesis using assms(1) unfolding s
    by (auto simp: eval_nat_numeral byte_at_def digits_def split: option.splits
        dest: digit_of_Some_digits)
qed

lemma parse_isoformat_date_None:
  "parse_digits s 0 0 4 = None \<Longrightarrow> parse_isoformat_date s n = None"
  by (simp add: parse_isoformat_date_def)

lemma fromisoformat_Inr_year_digits:
  assumes "fromisoformat v = Inr date"
  shows "7 \<le> length v \<and> digits (take 4 v)"
proof -
  have len: "7 \<le> length v"
    using assms by (simp add: fromisoformat_def Let_def split: if_splits)
  have "parse_digits v 0 0 4 \<noteq> None"
  proof
    assume "parse_digits v 0 0 4 = None"
    then have "\<And>n. parse_isoformat_date v n = None" by (rule parse_isoformat_date_None)
    then have "\<exists>e. fromisoformat v = Inl e"
      by (simp add: fromisoformat_def Let_def split: option.splits)
    with assms show False by simp
  qed
  then obtain r where "parse_digits v 0 0 4 = Some r" by blast
  from parse_digits_4_digits [OF this] len show ?thesis by simp
qed

text \<open>
  Claim C2, the spec's sentence refuted.  An ISO 8601 date need not be parseable: the ordinal
  date \<open>2024-060\<close>, day 60 of the year 2024, is a date of ISO 8601, and the validator
  raises on it, on every platform.  Nor is a string the validator accepts a date of ISO
  8601: it returns \<open>2024-02-29\<close> for \<open>2024-02-29x10\<close>, where the letter \<open>x\<close> is taken for the
  separator of date and time.
\<close>

theorem validate_date_raises_on_iso8601_ordinal_date:
  "iso8601_ordinal_date ''2024-060'' \<and>
   validate_date glibc ''2024-060'' = Inl (ValueError ''datePublished is not a valid date'') \<and>
   validate_date padding_libc ''2024-060'' =
     Inl (ValueError ''datePublished is not a valid date'') \<and>
   \<not> iso8601_calendar_date ''2024-02-29x10'' \<and>
   \<not> iso8601_ordinal_date ''2024-02-29x10'' \<and>
   validate_date glibc ''2024-02-29x10'' = Inr ''2024-02-29''"
  by code_simp

text \<open>
  Claim C2, amended.  On every platform, \<open>validate_date\<close> raises if and only if
  \<open>datetime.fromisoformat\<close> raises on its input, and what it raises then is the \<open>ValueError\<close>
  of the notebook; it returns if and only if \<open>datetime.fromisoformat\<close> returns.  Of the dates
  of ISO 8601, it accepts every calendar date, extended (\<open>YYYY-MM-DD\<close>) or basic
  (\<open>YYYYMMDD\<close>), of the years 0001 to 9999; it raises on every calendar date of the year 0000
  and on every ordinal date, extended (\<open>YYYY-DDD\<close>) or basic (\<open>YYYYDDD\<close>).  Every string it
  accepts has at least seven bytes and starts with the four digits of a year.
\<close>

theorem validate_date_raises_iff_fromisoformat_raises:
  "((validate_date w v = Inl (ValueError ''datePublished is not a valid date''))
      = (\<exists>e. fromisoformat v = Inl e)) \<and>
   ((\<exists>e. validate_date w v = Inl e) = (\<exists>e. fromisoformat v = Inl e)) \<and>
   ((\<exists>s. validate_date w v = Inr s) = (\<exists>date. fromisoformat v = Inr date)) \<and>
   (iso8601_calendar_date v \<and> 1 \<le> iso8601_year v \<longrightarrow> (\<exists>s. validate_date w v = Inr s)) \<and>
   (iso8601_calendar_date v \<and> iso8601_year v = 0 \<longrightarrow>
      validate_date w v = Inl (ValueError ''datePublished is not a valid date'')) \<and>
   (iso8601_ordinal_date v \<longrightarrow>
      validate_date w v = Inl (ValueError ''datePublished is not a valid date'')) \<and>
   ((\<exists>s. validate_date w v = Inr s) \<longrightarrow> 7 \<le> length v \<and> digits (take 4 v))"
proof -
  have iff: "((validate_date w v = Inl (ValueError ''datePublished is not a valid date''))
      = (\<exists>e. fromisoformat v = Inl e)) \<and>
   ((\<exists>e. validate_date w v = Inl e) = (\<exists>e. fromisoformat v = Inl e)) \<and>
   ((\<exists>s. validate_date w v = Inr s) = (\<exists>date. fromisoformat v = Inr date))"
  proof (cases "fromisoformat v")
    case (Inl e)
    from validate_date_Inl [OF Inl, of w] Inl show ?thesis by simp
  next
    case (Inr date)
    from validate_date_strftime [OF Inr, of w] Inr show ?thesis by simp
  qed
  have calendar: "\<exists>s. validate_date w v = Inr s"
    if h: "iso8601_calendar_date v \<and> 1 \<le> iso8601_year v"
  proof -
    obtain date where "fromisoformat v = Inr date"
      using iso8601_calendar_date_accepted h by blast
    from validate_date_strftime [OF this, of w] show ?thesis by simp
  qed
  have year_0: "validate_date w v = Inl (ValueError ''datePublished is not a valid date'')"
    if "iso8601_calendar_date v \<and> iso8601_year v = 0"
    using that by (simp add: iso8601_calendar_date_year_0 validate_date_Inl)
  have ordinal: "validate_date w v = Inl (ValueError ''datePublished is not a valid date'')"
    if "iso8601_ordinal_date v"
    using that by (simp add: iso8601_ordinal_date_rejected validate_date_Inl)
  have shape: "7 \<le> length v \<and> digits (take 4 v)" if h: "\<exists>s. validate_date w v = Inr s"
  proof -
    obtain date where "fromisoformat v = Inr date" using h iff by blast
    then show ?thesis by (rule fromisoformat_Inr_year_digits)
  qed
  from iff calendar year_0 ordinal shape show ?thesis by blast
qed

theorem validate_date_raises_iff_fromisoformat_raises_witness:
  "iso8601_calendar_date ''20240229'' \<and> 1 \<le> iso8601_year ''20240229'' \<and>
   (\<exists>s. validate_date glibc ''20240229'' = Inr s) \<and>
   (\<exists>date. fromisoformat ''20240229'' = Inr date) \<and>
   7 \<le> length ''20240229'' \<and> digits (take 4 ''20240229'') \<and>
   iso8601_calendar_date ''0000-02-29'' \<and> iso8601_year ''0000-02-29'' = 0 \<and>
   validate_date glibc ''0000-02-29'' = Inl (ValueError ''datePublished is not a valid date'') \<and>
   (\<exists>e. fromisoformat ''0000-02-29'' = Inl e) \<and>
   iso8601_ordinal_date ''2023365'' \<and>
   validate_date glibc ''2023365'' = Inl (ValueError ''datePublished is not a valid date'')"
proof -
  have a: "iso8601_calendar_date ''20240229'' \<and> 1 \<le> iso8601_year ''20240229''"
    by code_simp
  have b: "iso8601_calendar_date ''0000-02-29'' \<and> iso8601_year ''0000-02-29'' = 0"
    by code_simp
  have c: "iso8601_ordinal_date ''2023365''"
    by code_simp
  note t1 = validate_date_raises_iff_fromisoformat_raises [of glibc "''20240229''"]
  note t2 = validate_date_raises_iff_fromisoformat_raises [of glibc "''0000-02-29''"]
  note t3 = validate_date_raises_iff_fromisoformat_raises [of glibc "''2023365''"]
  have r1: "(\<exists>s. validate_date glibc ''20240229'' = Inr s) \<and>
    (\<exists>date. fromisoformat ''20240229'' = Inr date) \<and>
    7 \<le> length ''20240229'' \<and> digits (take 4 ''20240229'')"
    using t1 a by blast
  have r2: "validate_date glibc ''0000-02-29'' =
      Inl (ValueError ''datePublished is not a valid date'') \<and>
    (\<exists>e. fromisoformat ''0000-02-29'' = Inl e)"
    using t2 b by blast
  have r3: "validate_date glibc ''2023365'' =
      Inl (ValueError ''datePublished is not a valid date'')"
    using t3 c by blast
  from a b c r1 r2 r3 show ?thesis by blast
qed

text \<open>
  Claim C9.  The validator is meant to be idempotent.  On glibc it is not for a year below
  1000: the string \<open>0999-01-01\<close> is accepted and returned as \<open>999-01-01\<close>, and that string is
  rejected.  (It is idempotent on every input whose year is 1000 or later, and on every
  input on a platform that pads the year: \<open>validate_date_idempotent_four_digit_year\<close>.)
\<close>

theorem validate_date_not_idempotent_unpadded_year:
  "validate_date glibc ''0999-01-01'' = Inr ''999-01-01'' \<and>
   validate_date glibc ''999-01-01'' = Inl (ValueError ''datePublished is not a valid date'') \<and>
   validate_date padding_libc ''0999-01-01'' = Inr ''0999-01-01''"
  by code_simp

section \<open>The streaming loop\<close>

lemma pretty_printed_append: "pretty_printed (a @ b) = pretty_printed a @ pretty_printed b"
  by (induction a rule: pretty_printed.induct) simp_all

lemma pretty_printed_map: "pretty_printed (map PrettyPrint ms) = ms"
  by (induction ms) simp_all

lemma stream_loop_append:
  "stream_loop i (xs @ ys) =
     (case stream_loop i xs of (t, j) \<Rightarrow> case stream_loop j ys of (t', k) \<Rightarrow> (t @ t', k))"
  by (induction i xs rule: stream_loop.induct) (simp_all add: Let_def split: prod.splits)

lemma stream_loop_index:
  assumes "\<forall>c\<in>set chunks. pretty_printed (fst c) = []"
  shows "snd (stream_loop i chunks) = i + length (pretty_printed (fst (stream_loop i chunks)))"
  using assms
proof (induction i chunks rule: stream_loop.induct)
  case (1 message_index)
  then show ?case by simp
next
  case (2 message_index t chunk rest)
  let ?j = "message_index + length (drop message_index chunk)"
  obtain t' k where r: "stream_loop ?j rest = (t', k)" by fastforce
  have "snd (stream_loop ?j rest) = ?j + length (pretty_printed (fst (stream_loop ?j rest)))"
    using "2.IH" [OF refl refl] "2.prems" by simp
  then have ih: "k = ?j + length (pretty_printed t')" using r by simp
  have t: "pretty_printed t = []" using "2.prems" by simp
  show ?case using r ih t
    by (simp add: Let_def pretty_printed_append pretty_printed_map)
qed

lemma stream_loop_printed:
  assumes "chunks \<noteq> []" "sorted_wrt prefix (map snd chunks)"
    "\<forall>c\<in>set chunks. pretty_printed (fst c) = []"
  shows "pretty_printed (fst (stream_loop i chunks)) = drop i (snd (last chunks))"
  using assms
proof (induction i chunks rule: stream_loop.induct)
  case (1 message_index)
  then show ?case by simp
next
  case (2 message_index t chunk rest)
  let ?j = "message_index + length (drop message_index chunk)"
  obtain t' k where r: "stream_loop ?j rest = (t', k)" by fastforce
  have t: "pretty_printed t = []" using "2.prems" by simp
  have printed: "pretty_printed (fst (stream_loop message_index ((t, chunk) # rest))) =
                 drop message_index chunk @ pretty_printed t'"
    using r t by (simp add: Let_def pretty_printed_append pretty_printed_map)
  show ?case
  proof (cases "rest = []")
    case True
    with r have "t' = []" by simp
    with printed True show ?thesis by simp
  next
    case False
    have "pretty_printed (fst (stream_loop ?j rest)) = drop ?j (snd (last rest))"
      using "2.IH" [OF refl refl False] "2.prems" by simp
    then have ih: "pretty_printed t' = drop ?j (snd (last rest))" using r by simp
    have "snd (last rest) \<in> set (map snd rest)" using False by simp
    then have "prefix chunk (snd (last rest))" using "2.prems"(2) by auto
    then obtain z where z: "snd (last rest) = chunk @ z" by (auto simp: prefix_def)
    have "drop message_index chunk @ drop ?j (chunk @ z) = drop message_index (chunk @ z)"
      by (cases "message_index \<le> length chunk") auto
    with printed ih z False show ?thesis by simp
  qed
qed

lemma pregel_loop_chain:
  assumes "pregel_loop fuel g active st = (chunks, fin)"
  shows "(\<forall>c\<in>set chunks. prefix st (snd c)) \<and> sorted_wrt prefix (map snd chunks)"
  using assms
proof (induction fuel g active st arbitrary: chunks fin rule: pregel_loop.induct)
  case (1 fuel g st)
  then show ?case by simp
next
  case (2 g n ns st)
  then show ?case by simp
next
  case (3 fuel g n ns st)
  show ?case
  proof (cases "run_nodes g (n # ns) st")
    case (Pair t r)
    show ?thesis
    proof (cases r)
      case (Inl e)
      with Pair 3 show ?thesis by simp
    next
      case (Inr updates)
      obtain chunks' fin' where
        r: "pregel_loop fuel g (successors g (n # ns)) (add_messages st updates) = (chunks', fin')"
        by fastforce
      have ih: "(\<forall>c\<in>set chunks'. prefix (add_messages st updates) (snd c)) \<and>
                sorted_wrt prefix (map snd chunks')"
        using "3.IH" [OF Pair [symmetric] Inr refl r] .
      have c: "chunks = (t, add_messages st updates) # chunks'"
        using "3.prems" Pair Inr r by (simp add: Let_def)
      have p: "prefix st (add_messages st updates)" by (simp add: add_messages_def)
      show ?thesis unfolding c using ih p by (auto intro: prefix_order.trans)
    qed
  qed
qed

lemma astream_chain:
  assumes "astream g input = (chunks, fin)"
  shows "chunks \<noteq> [] \<and> snd (hd chunks) = input \<and> sorted_wrt prefix (map snd chunks) \<and>
         prefix input (snd (last chunks))"
proof -
  obtain chunks' fin' where
    r: "pregel_loop recursion_limit g (successors g [START]) input = (chunks', fin')"
    by fastforce
  have c: "chunks = ([], input) # chunks'" using assms r by (simp add: astream_def)
  from pregel_loop_chain [OF r] show ?thesis unfolding c by (auto simp: last_conv_nth)
qed

section \<open>Runs of the agent and of the runners\<close>

lemma summarize_run:
  assumes "st \<noteq> []"
  shows "summarize env m st =
     (summarize_events m (message.content (last st)),
      case structured env m (message.content (last st)) of
        Inl e \<Rightarrow> Inl e
      | Inr obj \<Rightarrow> Inr [AIMessage (model_dump_json env obj 2)])"
  using assms
  by (simp add: summarize_def io_bind_def print_def last_message_def io_return_def
      with_structured_output_def structured_def summarize_events_def summarize_prompt_def
      split: sum.splits prod.splits)

lemma successors_START:
  "successors (get_article_extractor env m) [START] = [''summarize'']"
  by (simp add: successors_def get_article_extractor_def compile_def add_edge_def add_node_def
      new_StateGraph_def END_def)

lemma successors_summarize:
  "successors (get_article_extractor env m) [''summarize''] = []"
  by (simp add: successors_def get_article_extractor_def compile_def add_edge_def add_node_def
      new_StateGraph_def START_def)

lemma run_nodes_summarize:
  "run_nodes (get_article_extractor env m) [''summarize''] st =
     io_bind (summarize env m st) (\<lambda>update. io_return update)"
  by (simp add: get_article_extractor_def compile_def add_edge_def add_node_def
      new_StateGraph_def io_bind_def io_return_def split: sum.splits prod.splits)

lemma pregel_loop_limit:
  "pregel_loop recursion_limit g (n # ns) st =
     (case run_nodes g (n # ns) st of
        (t, Inl e) \<Rightarrow> ([], Some (t, e))
      | (t, Inr updates) \<Rightarrow>
          (let st' = add_messages st updates
           in case pregel_loop 24 g (successors g (n # ns)) st' of
                (chunks, fin) \<Rightarrow> ((t, st') # chunks, fin)))"
proof -
  have fuel: "recursion_limit = Suc 24" by (simp add: recursion_limit_def)
  show ?thesis by (simp only: fuel pregel_loop.simps)
qed

lemma astream_agent:
  "astream (get_article_extractor env m) [prompt] =
     (case structured env m (message.content prompt) of
        Inl e \<Rightarrow> ([([], [prompt])], Some (summarize_events m (message.content prompt), e))
      | Inr obj \<Rightarrow>
          ([([], [prompt]),
            (summarize_events m (message.content prompt),
             [prompt, AIMessage (model_dump_json env obj 2)])], None))"
  unfolding astream_def successors_START
  by (simp add: pregel_loop_limit run_nodes_summarize summarize_run io_bind_def io_return_def
      successors_summarize add_messages_def del: run_nodes.simps split: sum.splits)

lemma page2string_run:
  "page2string env url =
     ([HttpGet url],
      case requests_get env url of
        Inl e \<Rightarrow> Inl e
      | Inr page_response \<Rightarrow> Inr (page_text url page_response))"
  by (simp add: page2string_def io_bind_def io_return_def page_text_def split: sum.splits)

lemma ainvoke_agent:
  "ainvoke (get_article_extractor env m) [prompt] =
     (summarize_events m (message.content prompt),
      case structured env m (message.content prompt) of
        Inl e \<Rightarrow> Inl e
      | Inr obj \<Rightarrow> Inr [prompt, AIMessage (model_dump_json env obj 2)])"
  by (simp add: ainvoke_def astream_agent split: sum.splits)

lemma stream_and_pretty_print_agent:
  "stream_and_pretty_print (get_article_extractor env m) prompt =
     (case structured env m (message.content prompt) of
        Inl e \<Rightarrow> (summarize_events m (message.content prompt), Inl e)
      | Inr obj \<Rightarrow>
          (summarize_events m (message.content prompt)
             @ [PrettyPrint (AIMessage (model_dump_json env obj 2))], Inr ()))"
  by (simp add: stream_and_pretty_print_def astream_agent Let_def split: sum.splits)

lemma getitem_granite:
  "getitem (AGENTS env) ''granite3.2'' = io_return (get_article_extractor env granite)"
  by (simp add: getitem_def AGENTS_def granite_def)

lemma summarize_article_run:
  "summarize_article env url =
     (case requests_get env url of
        Inl e \<Rightarrow> ([HttpGet url], Inl e)
      | Inr page_response \<Rightarrow>
          (HttpGet url # summarize_events granite (page_text url page_response),
           case structured env granite (page_text url page_response) of
             Inl e \<Rightarrow> Inl e
           | Inr obj \<Rightarrow> Inr (model_dump_json env obj 2)))"
  by (simp add: summarize_article_def page2string_run getitem_granite ainvoke_agent
      io_bind_def io_return_def last_message_def io_raise_def split: sum.splits)

lemma for_agents_AGENTS:
  "for_agents (AGENTS env) (HumanMessage html) =
     (case structured env qwen html of
        Inl e \<Rightarrow> (starting ''qwen3:8b'' # summarize_events qwen html, Inl e)
      | Inr obj \<Rightarrow>
          (case structured env granite html of
             Inl e \<Rightarrow>
               (starting ''qwen3:8b'' # summarize_events qwen html
                  @ [PrettyPrint (AIMessage (model_dump_json env obj 2))]
                  @ starting ''granite3.2'' # summarize_events granite html, Inl e)
           | Inr obj' \<Rightarrow>
               (starting ''qwen3:8b'' # summarize_events qwen html
                  @ [PrettyPrint (AIMessage (model_dump_json env obj 2))]
                  @ starting ''granite3.2'' # summarize_events granite html
                  @ [PrettyPrint (AIMessage (model_dump_json env obj' 2))], Inr ())))"
  by (simp add: AGENTS_def qwen_def [symmetric] granite_def [symmetric]
      stream_and_pretty_print_agent io_bind_def io_return_def print_def starting_def
      split: sum.splits)

lemma batch_runner_run:
  "batch_runner env url =
     (case requests_get env url of
        Inl e \<Rightarrow> ([HttpGet url], Inl e)
      | Inr page_response \<Rightarrow>
          (HttpGet url # fst (for_agents (AGENTS env) (HumanMessage (page_text url page_response))),
           snd (for_agents (AGENTS env) (HumanMessage (page_text url page_response)))))"
  by (simp add: batch_runner_def page2string_run io_bind_def split: sum.splits prod.splits)

lemma SummarySchema_example: "SummarySchema glibc example_kwargs = Inr example_instance"
  by (simp add: SummarySchema_def model_fields_def field_validators_def validate_field_def
      example_kwargs_def example_instance_def check_annotation_def category_literals_def
      validate_date_value_def validate_date_example)

lemma PydanticOutputParser_Inr:
  "SummarySchema w obj = Inr response \<Longrightarrow> PydanticOutputParser w obj = Inr response"
  by (simp add: PydanticOutputParser_def)

lemma PydanticOutputParser_ValidationError:
  "SummarySchema w obj = Inl (ValidationError msg) \<Longrightarrow>
   PydanticOutputParser w obj =
     Inl (OutputParserException (''Failed to parse SummarySchema from completion. Got: '' @ msg))"
  by (simp add: PydanticOutputParser_def)

lemma structured_example: "structured example_env m html = Inr example_instance"
  by (simp add: structured_def example_env_def SummarySchema_example PydanticOutputParser_Inr)

text \<open>
  Claim C5.  Whenever the page is fetched and the model's answer conforms to \<open>SummarySchema\<close>,
  \<open>summarize_article\<close> returns the JSON serialisation (\<open>model_dump_json\<close> with indent 2) of
  the validated instance.  That string is the content of the last message of the final
  state, which holds the prompt and this one answer; nothing of the prompt is returned.
\<close>

theorem summarize_article_returns_json:
  assumes "requests_get env url = Inr page_response"
    and "ollama env granite (summarize_prompt (page_text url page_response)) = Inr kwargs"
    and "SummarySchema (year_width env) kwargs = Inr response"
  shows "snd (summarize_article env url) = Inr (model_dump_json env response 2) \<and>
         snd (ainvoke (get_article_extractor env granite)
                [HumanMessage (page_text url page_response)]) =
           Inr [HumanMessage (page_text url page_response),
                AIMessage (model_dump_json env response 2)]"
  using assms
  by (simp add: summarize_article_run ainvoke_agent structured_def PydanticOutputParser_Inr)

theorem summarize_article_returns_json_witness:
  "requests_get example_env batch_url = Inr example_page \<and>
   ollama example_env granite (summarize_prompt (page_text batch_url example_page))
     = Inr example_kwargs \<and>
   SummarySchema (year_width example_env) example_kwargs = Inr example_instance \<and>
   snd (summarize_article example_env batch_url) = Inr (example_dump example_instance 2)"
proof -
  have a: "requests_get example_env batch_url = Inr example_page"
    by (simp add: example_env_def)
  have b: "ollama example_env granite (summarize_prompt (page_text batch_url example_page))
             = Inr example_kwargs"
    by (simp add: example_env_def)
  have c: "SummarySchema (year_width example_env) example_kwargs = Inr example_instance"
    using SummarySchema_example by (simp add: example_env_def)
  have d: "model_dump_json example_env = example_dump" by (simp add: example_env_def)
  from summarize_article_returns_json [OF a b c] a b c d
  show ?thesis by simp
qed

text \<open>
  Claim C4.  The graph that \<open>get_article_extractor\<close> compiles has exactly one node, named
  \<open>summarize\<close>, and exactly one edge, from \<open>START\<close> to \<open>summarize\<close>.
\<close>

theorem get_article_extractor_one_node_one_edge:
  "nodes (builder (get_article_extractor env m)) = [(''summarize'', summarize env m)] \<and>
   edges (builder (get_article_extractor env m)) = [(START, ''summarize'')]"
  by (simp add: get_article_extractor_def compile_def add_edge_def add_node_def
      new_StateGraph_def)

text \<open>
  Claim C10.  Let the stream of an agent yield \<open>chunks\<close>, and let producing them print no
  message.  Then the last state is the prompt followed by exactly the messages that
  \<open>stream_and_pretty_print\<close> printed, in order: the prompt at index 0 is never printed and
  every message added after it is printed exactly once.  Moreover the running index, which
  starts at 1, equals after each chunk the number of messages printed so far plus one.
\<close>

theorem stream_and_pretty_print_new_messages_once:
  assumes "astream agent [prompt] = (chunks, fin)"
    and "\<forall>c\<in>set chunks. pretty_printed (fst c) = []"
    and "\<forall>t e. fin = Some (t, e) \<longrightarrow> pretty_printed t = []"
  shows "snd (last chunks) = prompt # pretty_printed (fst (stream_and_pretty_print agent prompt)) \<and>
         (\<forall>k\<le>length chunks.
            snd (stream_loop 1 (take k chunks)) =
              length (pretty_printed (fst (stream_loop 1 (take k chunks)))) + 1)"
proof -
  have chain: "chunks \<noteq> []" "sorted_wrt prefix (map snd chunks)"
    "prefix [prompt] (snd (last chunks))"
    using astream_chain [OF assms(1)] by simp_all
  obtain t final_index where r: "stream_loop 1 chunks = (t, final_index)" by fastforce
  have "pretty_printed (fst (stream_loop 1 chunks)) = drop 1 (snd (last chunks))"
    by (rule stream_loop_printed [OF chain(1,2) assms(2)])
  then have t: "pretty_printed t = drop 1 (snd (last chunks))" using r by simp
  obtain z where z: "snd (last chunks) = prompt # z" using chain(3) by (auto simp: prefix_def)
  have "pretty_printed (fst (stream_and_pretty_print agent prompt)) = pretty_printed t"
    using assms(1,3) r
    by (cases fin) (auto simp: stream_and_pretty_print_def pretty_printed_append)
  then have first: "snd (last chunks) = prompt # pretty_printed (fst (stream_and_pretty_print agent prompt))"
    using t z by simp
  have second: "\<forall>k\<le>length chunks.
            snd (stream_loop 1 (take k chunks)) =
              length (pretty_printed (fst (stream_loop 1 (take k chunks)))) + 1"
  proof (intro allI impI)
    fix k
    have "\<forall>c\<in>set (take k chunks). pretty_printed (fst c) = []"
      using assms(2) by (meson in_set_takeD)
    from stream_loop_index [OF this, of 1] show "snd (stream_loop 1 (take k chunks)) =
              length (pretty_printed (fst (stream_loop 1 (take k chunks)))) + 1"
      by simp
  qed
  from first second show ?thesis by blast
qed

theorem stream_and_pretty_print_new_messages_once_witness:
  "astream (get_article_extractor example_env granite) [HumanMessage ''page''] =
     ([([], [HumanMessage ''page'']),
       (summarize_events granite ''page'',
        [HumanMessage ''page'', AIMessage (example_dump example_instance 2)])], None) \<and>
   pretty_printed (summarize_events granite ''page'') = [] \<and>
   pretty_printed (fst (stream_and_pretty_print (get_article_extractor example_env granite)
                          (HumanMessage ''page''))) =
     [AIMessage (example_dump example_instance 2)]"
proof -
  let ?chunks = "[([], [HumanMessage ''page'']),
       (summarize_events granite ''page'',
        [HumanMessage ''page'', AIMessage (example_dump example_instance 2)])]"
  have d: "model_dump_json example_env = example_dump" by (simp add: example_env_def)
  have a: "astream (get_article_extractor example_env granite) [HumanMessage ''page''] =
             (?chunks, None)"
    by (simp add: astream_agent structured_example d)
  have p: "pretty_printed (summarize_events granite ''page'') = []"
    by (simp add: summarize_events_def)
  have b: "\<forall>c\<in>set ?chunks. pretty_printed (fst c) = []" using p by simp
  have c: "\<forall>t e. (None :: (event list \<times> exn) option) = Some (t, e) \<longrightarrow> pretty_printed t = []"
    by simp
  from stream_and_pretty_print_new_messages_once [OF a b c]
  have "snd (last ?chunks) =
          HumanMessage ''page'' #
          pretty_printed (fst (stream_and_pretty_print
                                 (get_article_extractor example_env granite)
                                 (HumanMessage ''page'')))"
    by blast
  then have "pretty_printed (fst (stream_and_pretty_print
                                 (get_article_extractor example_env granite)
                                 (HumanMessage ''page''))) =
             [AIMessage (example_dump example_instance 2)]"
    by simp
  with a p show ?thesis by blast
qed





section \<open>Properties of the schema\<close>

lemma validate_field_plain:
  assumes "filter (\<lambda>fv. fst fv = name) validators = []"
  shows "validate_field validators (name, fi) kwargs =
     (case kwargs name of
        None \<Rightarrow> (case default fi of None \<Rightarrow> Inl (ValidationError ''Field required'')
                  | Some d \<Rightarrow> Inr d)
      | Some v \<Rightarrow> check_annotation (annotation fi) v)"
  using assms by (simp add: validate_field_def split: option.splits sum.splits)

lemma check_Str:
  "check_annotation Str v = Inr v' \<longleftrightarrow> (\<exists>s. v = PyStr s \<and> v' = v)"
  by (cases v) (auto simp: check_annotation_def)

lemma check_Optional_Str:
  "check_annotation Optional_Str v = Inr v' \<longleftrightarrow> ((v = PyNone \<or> (\<exists>s. v = PyStr s)) \<and> v' = v)"
  by (cases v) (auto simp: check_annotation_def)

lemma check_Literal:
  "check_annotation (Literal allowed) v = Inr v' \<longleftrightarrow> (\<exists>s. v = PyStr s \<and> s \<in> set allowed \<and> v' = v)"
  by (cases v) (auto simp: check_annotation_def)

lemma validate_field_required_Str:
  assumes "filter (\<lambda>fv. fst fv = name) validators = []" "default fi = None" "annotation fi = Str"
  shows "validate_field validators (name, fi) kwargs = Inr v \<longleftrightarrow>
         (\<exists>s. kwargs name = Some (PyStr s) \<and> v = PyStr s)"
  using assms by (auto simp: validate_field_plain check_Str split: option.splits)

lemma validate_field_datePublished:
  "validate_field (field_validators w)
     (''datePublished'', \<lparr>annotation = Str, default = None, description = d\<rparr>) kwargs = Inr v \<longleftrightarrow>
   (\<exists>s s'. kwargs ''datePublished'' = Some (PyStr s) \<and> validate_date w s = Inr s' \<and> v = PyStr s')"
  by (auto simp: validate_field_def field_validators_def check_annotation_def
      validate_date_value_def split: option.splits sum.splits pyval.splits exn.splits)


lemma validate_field_category:
  "validate_field (field_validators w)
     (''category'', \<lparr>annotation = Literal allowed, default = None, description = d\<rparr>) kwargs
     = Inr v \<longleftrightarrow>
   (\<exists>s. kwargs ''category'' = Some (PyStr s) \<and> s \<in> set allowed \<and> v = PyStr s)"
  by (auto simp: validate_field_plain field_validators_def check_Literal split: option.splits)

lemma validate_field_imageUrl:
  "validate_field (field_validators w)
     (''imageUrl'', \<lparr>annotation = Optional_Str, default = Some PyNone, description = d\<rparr>) kwargs
     = Inr v \<longleftrightarrow>
   ((kwargs ''imageUrl'' = None \<and> v = PyNone) \<or>
    (kwargs ''imageUrl'' = Some v \<and> (v = PyNone \<or> (\<exists>s. v = PyStr s))))"
  by (auto simp: validate_field_plain field_validators_def check_Optional_Str
      split: option.splits)

lemma validate_field_str:
  assumes "name \<noteq> ''datePublished''"
  shows "validate_field (field_validators w)
     (name, \<lparr>annotation = Str, default = None, description = d\<rparr>) kwargs = Inr v \<longleftrightarrow>
   (\<exists>s. kwargs name = Some (PyStr s) \<and> v = PyStr s)"
  using assms by (simp add: validate_field_required_Str field_validators_def)

lemma validate_fields_Nil_Inr: "validate_fields vs [] kw = Inr obj \<longleftrightarrow> obj = Map.empty"
  by auto

lemma validate_fields_Cons_Inr:
  "validate_fields vs (f # fs) kw = Inr obj \<longleftrightarrow>
   (\<exists>v obj'. validate_field vs f kw = Inr v \<and> validate_fields vs fs kw = Inr obj' \<and>
             obj = obj'(fst f \<mapsto> v))"
  by (auto split: sum.splits)

lemmas validate_field_strs =
  validate_field_str [of "''title''", simplified]
  validate_field_str [of "''url''", simplified]
  validate_field_str [of "''summary''", simplified]
  validate_field_str [of "''content''", simplified]
  validate_field_str [of "''source''", simplified]

lemma SummarySchema_Inr_D:
  assumes "SummarySchema w kwargs = Inr obj"
  shows "\<exists>title url summary content category date date' image source.
      kwargs ''title'' = Some (PyStr title) \<and> kwargs ''url'' = Some (PyStr url) \<and>
      kwargs ''summary'' = Some (PyStr summary) \<and> kwargs ''content'' = Some (PyStr content) \<and>
      kwargs ''category'' = Some (PyStr category) \<and> category \<in> set category_literals \<and>
      kwargs ''datePublished'' = Some (PyStr date) \<and> validate_date w date = Inr date' \<and>
      ((kwargs ''imageUrl'' = None \<and> image = PyNone) \<or>
       (kwargs ''imageUrl'' = Some image \<and> (image = PyNone \<or> (\<exists>s. image = PyStr s)))) \<and>
      kwargs ''source'' = Some (PyStr source) \<and>
      obj = [''source'' \<mapsto> PyStr source, ''imageUrl'' \<mapsto> image,
             ''datePublished'' \<mapsto> PyStr date', ''category'' \<mapsto> PyStr category,
             ''content'' \<mapsto> PyStr content, ''summary'' \<mapsto> PyStr summary,
             ''url'' \<mapsto> PyStr url, ''title'' \<mapsto> PyStr title]"
proof -
  from assms [unfolded SummarySchema_def model_fields_def]
  have "\<exists>v1 v2 v3 v4 v5 v6 v7 v8.
      (\<exists>s. kwargs ''title'' = Some (PyStr s) \<and> v1 = PyStr s) \<and>
      (\<exists>s. kwargs ''url'' = Some (PyStr s) \<and> v2 = PyStr s) \<and>
      (\<exists>s. kwargs ''summary'' = Some (PyStr s) \<and> v3 = PyStr s) \<and>
      (\<exists>s. kwargs ''content'' = Some (PyStr s) \<and> v4 = PyStr s) \<and>
      (\<exists>s. kwargs ''category'' = Some (PyStr s) \<and> s \<in> set category_literals \<and> v5 = PyStr s) \<and>
      (\<exists>s s'. kwargs ''datePublished'' = Some (PyStr s) \<and> validate_date w s = Inr s' \<and>
               v6 = PyStr s') \<and>
      ((kwargs ''imageUrl'' = None \<and> v7 = PyNone) \<or>
       (kwargs ''imageUrl'' = Some v7 \<and> (v7 = PyNone \<or> (\<exists>s. v7 = PyStr s)))) \<and>
      (\<exists>s. kwargs ''source'' = Some (PyStr s) \<and> v8 = PyStr s) \<and>
      obj = [''source'' \<mapsto> v8, ''imageUrl'' \<mapsto> v7, ''datePublished'' \<mapsto> v6,
             ''category'' \<mapsto> v5, ''content'' \<mapsto> v4, ''summary'' \<mapsto> v3,
             ''url'' \<mapsto> v2, ''title'' \<mapsto> v1]"
    apply (simp only: validate_fields_Cons_Inr validate_fields_Nil_Inr validate_field_strs
        validate_field_category validate_field_imageUrl validate_field_datePublished fst_conv)
    apply (elim exE conjE)
    apply hypsubst
    apply (intro exI conjI)
    apply (assumption | rule refl)+
    done
  then show ?thesis by (elim exE conjE) (hypsubst, intro exI conjI, (assumption | rule refl)+)
qed

text \<open>
  Claim C3.  \<open>SummarySchema\<close> declares exactly the fields \<open>title\<close>, \<open>url\<close>, \<open>summary\<close>,
  \<open>content\<close>, \<open>category\<close>, \<open>datePublished\<close>, \<open>imageUrl\<close> and \<open>source\<close>; \<open>category\<close> is a
  literal of 15 distinct values; \<open>imageUrl\<close> is the only field with a default, which is
  \<open>None\<close>; the only field validator is the one of \<open>datePublished\<close>.  Accordingly an instance
  has exactly these fields, its category is one of the 15 literals, a missing \<open>imageUrl\<close>
  becomes \<open>None\<close>, every other field but \<open>datePublished\<close> holds the value given, and
  \<open>datePublished\<close> holds what \<open>validate_date\<close> returned; a missing field other than
  \<open>imageUrl\<close> is an error.
\<close>

theorem SummarySchema_shape:
  "map fst model_fields =
     [''title'', ''url'', ''summary'', ''content'', ''category'', ''datePublished'', ''imageUrl'',
      ''source''] \<and>
   map_of model_fields ''category'' =
     Some \<lparr>annotation = Literal category_literals, default = None, description = None\<rparr> \<and>
   length category_literals = 15 \<and> distinct category_literals \<and>
   map fst (filter (\<lambda>f. default (snd f) \<noteq> None) model_fields) = [''imageUrl''] \<and>
   map (\<lambda>f. (annotation (snd f), default (snd f)))
       (filter (\<lambda>f. fst f = ''imageUrl'') model_fields) = [(Optional_Str, Some PyNone)] \<and>
   field_validators w = [(''datePublished'', validate_date_value w)] \<and>
   (SummarySchema w kwargs = Inr obj \<longrightarrow>
      dom obj = set (map fst model_fields) \<and>
      (\<exists>c\<in>set category_literals. obj ''category'' = Some (PyStr c)) \<and>
      (kwargs ''imageUrl'' = None \<longrightarrow> obj ''imageUrl'' = Some PyNone) \<and>
      (\<forall>k\<in>{''title'', ''url'', ''summary'', ''content'', ''category'', ''source''}.
         obj k = kwargs k) \<and>
      (\<exists>v s. kwargs ''datePublished'' = Some (PyStr v) \<and> validate_date w v = Inr s \<and>
             obj ''datePublished'' = Some (PyStr s))) \<and>
   (k \<in> set (map fst model_fields) \<and> k \<noteq> ''imageUrl'' \<and> kwargs k = None \<longrightarrow>
      (\<exists>e. SummarySchema w kwargs = Inl e))"
proof -
  have names: "map fst model_fields =
     [''title'', ''url'', ''summary'', ''content'', ''category'', ''datePublished'', ''imageUrl'',
      ''source'']"
    by (simp add: model_fields_def)
  have cat: "map_of model_fields ''category'' =
     Some \<lparr>annotation = Literal category_literals, default = None, description = None\<rparr>"
    by (simp add: model_fields_def)
  have lits: "length category_literals = 15" "distinct category_literals"
    by (simp_all add: category_literals_def)
  have opt: "map fst (filter (\<lambda>f. default (snd f) \<noteq> None) model_fields) = [''imageUrl'']"
    "map (\<lambda>f. (annotation (snd f), default (snd f)))
       (filter (\<lambda>f. fst f = ''imageUrl'') model_fields) = [(Optional_Str, Some PyNone)]"
    by (simp_all add: model_fields_def)
  have vals: "field_validators w = [(''datePublished'', validate_date_value w)]"
    by (simp add: field_validators_def)
  have parts: "\<exists>title url summary content category date date' image source.
      kwargs ''title'' = Some (PyStr title) \<and> kwargs ''url'' = Some (PyStr url) \<and>
      kwargs ''summary'' = Some (PyStr summary) \<and> kwargs ''content'' = Some (PyStr content) \<and>
      kwargs ''category'' = Some (PyStr category) \<and> category \<in> set category_literals \<and>
      kwargs ''datePublished'' = Some (PyStr date) \<and> validate_date w date = Inr date' \<and>
      ((kwargs ''imageUrl'' = None \<and> image = PyNone) \<or>
       (kwargs ''imageUrl'' = Some image \<and> (image = PyNone \<or> (\<exists>s. image = PyStr s)))) \<and>
      kwargs ''source'' = Some (PyStr source) \<and>
      obj = [''source'' \<mapsto> PyStr source, ''imageUrl'' \<mapsto> image,
             ''datePublished'' \<mapsto> PyStr date', ''category'' \<mapsto> PyStr category,
             ''content'' \<mapsto> PyStr content, ''summary'' \<mapsto> PyStr summary,
             ''url'' \<mapsto> PyStr url, ''title'' \<mapsto> PyStr title]"
    if "SummarySchema w kwargs = Inr obj"
    by (rule SummarySchema_Inr_D [OF that])
  have ok1: "dom obj = set (map fst model_fields)" if "SummarySchema w kwargs = Inr obj"
    using parts [OF that] unfolding names by (elim exE conjE) simp
  have ok2: "\<exists>c\<in>set category_literals. obj ''category'' = Some (PyStr c)"
    if "SummarySchema w kwargs = Inr obj"
    using parts [OF that] by (elim exE conjE) simp
  have ok3: "obj ''imageUrl'' = Some PyNone"
    if "SummarySchema w kwargs = Inr obj" "kwargs ''imageUrl'' = None"
    using parts [OF that(1)] that(2) by (elim exE conjE) simp
  have ok4: "\<forall>k\<in>{''title'', ''url'', ''summary'', ''content'', ''category'', ''source''}.
         obj k = kwargs k"
    if "SummarySchema w kwargs = Inr obj"
    using parts [OF that] by (elim exE conjE) simp
  have ok5: "\<exists>v s. kwargs ''datePublished'' = Some (PyStr v) \<and> validate_date w v = Inr s \<and>
             obj ''datePublished'' = Some (PyStr s)"
    if "SummarySchema w kwargs = Inr obj"
    using parts [OF that] by (elim exE conjE) simp
  have req: "\<exists>e. SummarySchema w kwargs = Inl e"
    if "k \<in> set (map fst model_fields)" "k \<noteq> ''imageUrl''" "kwargs k = None"
  proof (cases "SummarySchema w kwargs")
    case (Inl e)
    then show ?thesis by blast
  next
    case (Inr obj')
    from SummarySchema_Inr_D [OF Inr] that show ?thesis
      unfolding names by (elim exE conjE) auto
  qed
  show ?thesis
    apply (intro conjI impI)
    subgoal by (rule names)
    subgoal by (rule cat)
    subgoal by (rule lits(1))
    subgoal by (rule lits(2))
    subgoal by (rule opt(1))
    subgoal by (rule opt(2))
    subgoal by (rule vals)
    subgoal by (rule ok1)
    subgoal by (rule ok2)
    subgoal by (rule ok3)
    subgoal by (rule ok4)
    subgoal by (rule ok5)
    subgoal using req by (elim conjE) blast
    done
qed

theorem SummarySchema_shape_witness:
  "SummarySchema glibc example_kwargs = Inr example_instance \<and>
   example_kwargs ''imageUrl'' = None \<and> example_instance ''imageUrl'' = Some PyNone \<and>
   example_instance ''datePublished'' = Some (PyStr ''2024-02-29'') \<and>
   dom example_instance = set (map fst model_fields) \<and>
   (example_kwargs(''title'' := None)) ''title'' = None \<and>
   (\<exists>e. SummarySchema glibc (example_kwargs(''title'' := None)) = Inl e)"
proof -
  have a: "example_kwargs ''imageUrl'' = None" by (simp add: example_kwargs_def)
  have b: "example_instance ''datePublished'' = Some (PyStr ''2024-02-29'')"
    by (simp add: example_instance_def)
  have c: "''title'' \<in> set (map fst model_fields) \<and> ''title'' \<noteq> ''imageUrl'' \<and>
           (example_kwargs(''title'' := None)) ''title'' = None"
    by (simp add: model_fields_def)
  note t = SummarySchema_shape [of glibc example_kwargs example_instance "''title''"]
  from t have i: "SummarySchema glibc example_kwargs = Inr example_instance \<longrightarrow>
      dom example_instance = set (map fst model_fields) \<and>
      (\<exists>c\<in>set category_literals. example_instance ''category'' = Some (PyStr c)) \<and>
      (example_kwargs ''imageUrl'' = None \<longrightarrow> example_instance ''imageUrl'' = Some PyNone) \<and>
      (\<forall>k\<in>{''title'', ''url'', ''summary'', ''content'', ''category'', ''source''}.
         example_instance k = example_kwargs k) \<and>
      (\<exists>v s. example_kwargs ''datePublished'' = Some (PyStr v) \<and> validate_date glibc v = Inr s \<and>
             example_instance ''datePublished'' = Some (PyStr s))"
    by (elim conjE)
  from i SummarySchema_example a have d: "dom example_instance = set (map fst model_fields)"
    and im: "example_instance ''imageUrl'' = Some PyNone"
    by simp_all
  note u = SummarySchema_shape [of glibc "example_kwargs(''title'' := None)" example_instance "''title''"]
  from u have "''title'' \<in> set (map fst model_fields) \<and> ''title'' \<noteq> ''imageUrl'' \<and>
           (example_kwargs(''title'' := None)) ''title'' = None \<longrightarrow>
           (\<exists>e. SummarySchema glibc (example_kwargs(''title'' := None)) = Inl e)"
    by (elim conjE)
  with c have e: "\<exists>e. SummarySchema glibc (example_kwargs(''title'' := None)) = Inl e" by (rule rev_mp)
  have f: "(example_kwargs(''title'' := None)) ''title'' = None" by simp
  show ?thesis
    by (intro conjI) (rule SummarySchema_example a im b d f e)+
qed

section \<open>Errors and the order of the effects\<close>

lemma check_annotation_ValidationError:
  "check_annotation a v = Inl e \<Longrightarrow> \<exists>msg. e = ValidationError msg"
  by (auto simp: check_annotation_def split: annotation.splits pyval.splits if_splits)

lemma validate_date_value_ValueError:
  assumes "validate_date_value w (PyStr s) = Inl e"
  shows "e = ValueError ''datePublished is not a valid date''"
proof (cases "fromisoformat s")
  case (Inl e')
  from validate_date_Inl [OF Inl, of w] assms show ?thesis
    by (simp add: validate_date_value_def)
next
  case (Inr date)
  from validate_date_strftime [OF Inr, of w] assms show ?thesis
    by (simp add: validate_date_value_def)
qed

lemma validate_field_ValidationError:
  assumes "validate_field (field_validators w) field kwargs = Inl e"
    and "fst field = ''datePublished'' \<longrightarrow> annotation (snd field) = Str"
  shows "\<exists>msg. e = ValidationError msg"
proof (cases "kwargs (fst field)")
  case None
  with assms(1) show ?thesis by (auto simp: validate_field_def split: option.splits)
next
  case (Some v)
  show ?thesis
  proof (cases "check_annotation (annotation (snd field)) v")
    case (Inl e')
    with assms(1) Some have "e = e'" by (simp add: validate_field_def)
    with check_annotation_ValidationError [OF Inl] show ?thesis by simp
  next
    case (Inr v')
    show ?thesis
    proof (cases "fst field = ''datePublished''")
      case False
      with assms(1) Some Inr show ?thesis
        by (simp add: validate_field_def field_validators_def)
    next
      case True
      with assms(2) Inr obtain s where v': "v' = PyStr s"
        by (auto simp: check_Str)
      from assms(1) Some Inr True have r: "run_validators [validate_date_value w] (PyStr s) = Inl e"
        by (simp add: validate_field_def field_validators_def v')
      show ?thesis
      proof (cases "validate_date_value w (PyStr s)")
        case (Inl e')
        from validate_date_value_ValueError [OF Inl] Inl r show ?thesis by auto
      next
        case (Inr v'')
        with r show ?thesis by simp
      qed
    qed
  qed
qed

lemma validate_fields_ValidationError:
  assumes "validate_fields (field_validators w) fs kwargs = Inl e"
    and "\<forall>field\<in>set fs. fst field = ''datePublished'' \<longrightarrow> annotation (snd field) = Str"
  shows "\<exists>msg. e = ValidationError msg"
  using assms
proof (induction fs arbitrary: e)
  case Nil
  then show ?case by simp
next
  case (Cons field rest)
  show ?case
  proof (cases "validate_field (field_validators w) field kwargs")
    case (Inl e')
    with Cons.prems(1) have "e = e'" by simp
    with validate_field_ValidationError [OF Inl] Cons.prems(2) show ?thesis by simp
  next
    case (Inr v)
    show ?thesis
    proof (cases "validate_fields (field_validators w) rest kwargs")
      case (Inl e')
      with Cons.prems(1) Inr have "e = e'" by simp
      with Cons.IH [OF Inl] Cons.prems(2) show ?thesis by simp
    next
      case (Inr obj)
      with Cons.prems(1) \<open>validate_field (field_validators w) field kwargs = Inr v\<close>
      show ?thesis by simp
    qed
  qed
qed

text \<open>The schema raises nothing but its \<open>ValidationError\<close>.\<close>

lemma SummarySchema_ValidationError:
  assumes "SummarySchema w kwargs = Inl e"
  shows "\<exists>msg. e = ValidationError msg"
proof -
  have "\<forall>field\<in>set model_fields. fst field = ''datePublished'' \<longrightarrow> annotation (snd field) = Str"
    by (simp add: model_fields_def)
  with assms show ?thesis
    unfolding SummarySchema_def by (rule validate_fields_ValidationError)
qed

lemma structured_client_error:
  "ollama env m (summarize_prompt html) = Inl e \<Longrightarrow> structured env m html = Inl e"
  by (simp add: structured_def)

lemma structured_validation_error:
  assumes "ollama env m (summarize_prompt html) = Inr answer"
    and "SummarySchema (year_width env) answer = Inl e"
  shows "\<exists>msg. e = ValidationError msg \<and>
     structured env m html =
       Inl (OutputParserException
              (''Failed to parse SummarySchema from completion. Got: '' @ msg))"
proof -
  obtain msg where e: "e = ValidationError msg"
    using SummarySchema_ValidationError [OF assms(2)] by blast
  from assms(2) have "PydanticOutputParser (year_width env) answer =
      Inl (OutputParserException
             (''Failed to parse SummarySchema from completion. Got: '' @ msg))"
    unfolding e by (rule PydanticOutputParser_ValidationError)
  with assms(1) e show ?thesis by (simp add: structured_def)
qed

text \<open>
  Claim C6.  No exception is caught on the way out.  An exception of the fetch leaves
  \<open>page2string\<close>, \<open>summarize_article\<close> and the batch runner as it is.  An exception of the
  structured model call leaves \<open>summarize_article\<close> as it is, and leaves the batch runner as
  it is at the first agent where it occurs.  The structured model call raises whatever the
  client raises; on a malformed answer, one that the schema refuses with its
  \<open>ValidationError\<close>, it raises the \<open>OutputParserException\<close> of the output parser, which is
  the exception that then leaves the runners.
\<close>

theorem errors_propagate:
  "(requests_get env url = Inl e \<longrightarrow>
      snd (page2string env url) = Inl e \<and> snd (summarize_article env url) = Inl e \<and>
      snd (batch_runner env url) = Inl e) \<and>
   (requests_get env url = Inr page_response \<and>
    structured env granite (page_text url page_response) = Inl e \<longrightarrow>
      snd (summarize_article env url) = Inl e) \<and>
   (requests_get env url = Inr page_response \<and>
    structured env qwen (page_text url page_response) = Inl e \<longrightarrow>
      snd (batch_runner env url) = Inl e) \<and>
   (requests_get env url = Inr page_response \<and>
    structured env qwen (page_text url page_response) = Inr obj \<and>
    structured env granite (page_text url page_response) = Inl e \<longrightarrow>
      snd (batch_runner env url) = Inl e) \<and>
   (ollama env m (summarize_prompt html) = Inl e \<longrightarrow> structured env m html = Inl e) \<and>
   (ollama env m (summarize_prompt html) = Inr answer \<and>
    SummarySchema (year_width env) answer = Inl e' \<longrightarrow>
      (\<exists>msg. e' = ValidationError msg \<and>
         structured env m html =
           Inl (OutputParserException
                  (''Failed to parse SummarySchema from completion. Got: '' @ msg))))"
proof (intro conjI impI)
  assume "requests_get env url = Inl e"
  then show "snd (page2string env url) = Inl e" "snd (summarize_article env url) = Inl e"
    "snd (batch_runner env url) = Inl e"
    by (simp_all add: page2string_run summarize_article_run batch_runner_run)
next
  assume "requests_get env url = Inr page_response \<and>
          structured env granite (page_text url page_response) = Inl e"
  then show "snd (summarize_article env url) = Inl e"
    by (simp add: summarize_article_run)
next
  assume "requests_get env url = Inr page_response \<and>
          structured env qwen (page_text url page_response) = Inl e"
  then show "snd (batch_runner env url) = Inl e"
    by (simp add: batch_runner_run for_agents_AGENTS)
next
  assume "requests_get env url = Inr page_response \<and>
          structured env qwen (page_text url page_response) = Inr obj \<and>
          structured env granite (page_text url page_response) = Inl e"
  then show "snd (batch_runner env url) = Inl e"
    by (simp add: batch_runner_run for_agents_AGENTS)
next
  assume "ollama env m (summarize_prompt html) = Inl e"
  then show "structured env m html = Inl e" by (rule structured_client_error)
next
  assume a: "ollama env m (summarize_prompt html) = Inr answer \<and>
             SummarySchema (year_width env) answer = Inl e'"
  show "\<exists>msg. e' = ValidationError msg \<and>
     structured env m html =
       Inl (OutputParserException
              (''Failed to parse SummarySchema from completion. Got: '' @ msg))"
    by (rule structured_validation_error [OF a [THEN conjunct1] a [THEN conjunct2]])
qed

lemma SummarySchema_malformed:
  "SummarySchema w (example_kwargs(''category'' \<mapsto> PyStr ''Sports'')) =
     Inl (ValidationError ''Input should be one of the literals'')"
  by (simp add: SummarySchema_def model_fields_def field_validators_def validate_field_def
      example_kwargs_def check_annotation_def category_literals_def)

theorem errors_propagate_witness:
  "requests_get offline_env batch_url = Inl (RequestException ''Connection refused'') \<and>
   snd (page2string offline_env batch_url) = Inl (RequestException ''Connection refused'') \<and>
   snd (summarize_article offline_env batch_url) = Inl (RequestException ''Connection refused'') \<and>
   snd (batch_runner offline_env batch_url) = Inl (RequestException ''Connection refused'') \<and>
   SummarySchema (year_width malformed_env) (example_kwargs(''category'' \<mapsto> PyStr ''Sports'')) =
     Inl (ValidationError ''Input should be one of the literals'') \<and>
   snd (summarize_article malformed_env batch_url) =
     Inl (OutputParserException
            ''Failed to parse SummarySchema from completion. Got: Input should be one of the literals'') \<and>
   snd (batch_runner malformed_env batch_url) =
     Inl (OutputParserException
            ''Failed to parse SummarySchema from completion. Got: Input should be one of the literals'') \<and>
   snd (summarize_article granite_down_env batch_url) = Inl (ModelError ''model not found'') \<and>
   snd (batch_runner granite_down_env batch_url) = Inl (ModelError ''model not found'')"
proof -
  let ?html = "page_text batch_url example_page"
  let ?ope = "OutputParserException
     ''Failed to parse SummarySchema from completion. Got: Input should be one of the literals''"
  have off: "requests_get offline_env batch_url = Inl (RequestException ''Connection refused'')"
    by (simp add: offline_env_def)
  have mal_get: "requests_get malformed_env batch_url = Inr example_page"
    by (simp add: malformed_env_def example_env_def)
  have mal_model: "ollama malformed_env m (summarize_prompt ?html) =
                     Inr (example_kwargs(''category'' \<mapsto> PyStr ''Sports''))" for m
    by (simp add: malformed_env_def)
  have mal_schema: "SummarySchema (year_width malformed_env)
      (example_kwargs(''category'' \<mapsto> PyStr ''Sports'')) =
        Inl (ValidationError ''Input should be one of the literals'')"
    by (rule SummarySchema_malformed)
  have mal: "structured malformed_env m ?html = Inl ?ope" for m
    using errors_propagate [where env = malformed_env and m = m and html = ?html
        and answer = "example_kwargs(''category'' \<mapsto> PyStr ''Sports'')"
        and e' = "ValidationError ''Input should be one of the literals''"]
      mal_model [of m] mal_schema
    by simp
  have down_get: "requests_get granite_down_env batch_url = Inr example_page"
    by (simp add: granite_down_env_def example_env_def)
  have down_granite: "structured granite_down_env granite ?html = Inl (ModelError ''model not found'')"
    using errors_propagate [where env = granite_down_env and m = granite and html = ?html
        and e = "ModelError ''model not found''"]
    by (simp add: granite_down_env_def granite_def get_model_def)
  have down_qwen: "structured granite_down_env qwen ?html = Inr example_instance"
    by (simp add: structured_def granite_down_env_def example_env_def qwen_def get_model_def
        SummarySchema_example PydanticOutputParser_Inr)
  note o = errors_propagate [where env = offline_env and url = batch_url
      and e = "RequestException ''Connection refused''"]
  note m = errors_propagate [where env = malformed_env and url = batch_url
      and e = ?ope and page_response = example_page]
  note g = errors_propagate [where env = granite_down_env and url = batch_url
      and e = "ModelError ''model not found''" and page_response = example_page
      and obj = example_instance]
  from o off have 1: "snd (page2string offline_env batch_url) = Inl (RequestException ''Connection refused'')"
    "snd (summarize_article offline_env batch_url) = Inl (RequestException ''Connection refused'')"
    "snd (batch_runner offline_env batch_url) = Inl (RequestException ''Connection refused'')"
    by simp_all
  from m mal_get mal have 2: "snd (summarize_article malformed_env batch_url) = Inl ?ope"
    "snd (batch_runner malformed_env batch_url) = Inl ?ope"
    by simp_all
  from g down_get down_granite down_qwen have 3:
    "snd (summarize_article granite_down_env batch_url) = Inl (ModelError ''model not found'')"
    "snd (batch_runner granite_down_env batch_url) = Inl (ModelError ''model not found'')"
    by simp_all
  from off 1 mal_schema 2 3 show ?thesis by simp
qed

lemma batch_runner_example:
  "fst (batch_runner example_env batch_url) =
     HttpGet batch_url # starting ''qwen3:8b''
       # summarize_events qwen (page_text batch_url example_page)
       @ [PrettyPrint (AIMessage (example_dump example_instance 2))]
       @ starting ''granite3.2'' # summarize_events granite (page_text batch_url example_page)
       @ [PrettyPrint (AIMessage (example_dump example_instance 2))]"
proof -
  have g: "requests_get example_env batch_url = Inr example_page"
    and d: "model_dump_json example_env = example_dump"
    by (simp_all add: example_env_def)
  show ?thesis
    by (simp add: batch_runner_run g d for_agents_AGENTS structured_example)
qed

lemma summarize_article_example:
  "fst (summarize_article example_env batch_url) =
     HttpGet batch_url # summarize_events granite (page_text batch_url example_page)"
proof -
  have g: "requests_get example_env batch_url = Inr example_page"
    by (simp add: example_env_def)
  show ?thesis by (simp add: summarize_article_run g)
qed

text \<open>
  Claim C7 says that each run performs a single non-blocking network call, the page fetch.
  On the example environment the unit runner performs two network calls and the batch
  runner three; the awaited ones are the model invocations, and the fetch is not awaited.
\<close>

theorem single_nonblocking_network_call_counterexample:
  "filter network_call (fst (summarize_article example_env batch_url)) =
     [HttpGet batch_url,
      ModelInvoke ''granite3.2'' (summarize_prompt (page_text batch_url example_page))] \<and>
   filter network_call (fst (batch_runner example_env batch_url)) =
     [HttpGet batch_url,
      ModelInvoke ''qwen3:8b'' (summarize_prompt (page_text batch_url example_page)),
      ModelInvoke ''granite3.2'' (summarize_prompt (page_text batch_url example_page))] \<and>
   filter awaited (fst (batch_runner example_env batch_url)) =
     [ModelInvoke ''qwen3:8b'' (summarize_prompt (page_text batch_url example_page)),
      ModelInvoke ''granite3.2'' (summarize_prompt (page_text batch_url example_page))] \<and>
   \<not> awaited (HttpGet batch_url) \<and>
   \<not> single_nonblocking_network_call (fst (summarize_article example_env batch_url)) \<and>
   \<not> single_nonblocking_network_call (fst (batch_runner example_env batch_url))"
  by (simp add: single_nonblocking_network_call_def batch_runner_example
      summarize_article_example summarize_events_def starting_def qwen_def granite_def
      get_model_def)

text \<open>
  Claim C7, amended.  Each run of the unit runner and of the batch runner starts with the
  page fetch, a synchronous call, and fetches no second time.  Every other network call of
  the run is an awaited model invocation; it comes after a fetch that returned, and its
  prompt is built from the page that this one fetch returned.  The network calls after the
  fetch are, in the unit runner, the invocation of \<open>granite3.2\<close> if the fetch returned;
  in the batch runner, the invocation of \<open>qwen3:8b\<close> if the fetch returned, followed by
  the invocation of \<open>granite3.2\<close>, with the same prompt, if the first agent returned.
\<close>

theorem fetch_once_before_model_calls:
  "(\<exists>rest. fst (summarize_article env url) = HttpGet url # rest \<and>
      (\<forall>ev\<in>set rest. \<not> is_fetch ev) \<and>
      (\<forall>ev\<in>set rest. network_call ev \<longrightarrow> awaited ev \<and>
         (\<exists>page_response. requests_get env url = Inr page_response \<and>
            ev = ModelInvoke ''granite3.2'' (summarize_prompt (page_text url page_response)))) \<and>
      filter network_call rest =
        (case requests_get env url of
           Inl e \<Rightarrow> []
         | Inr page_response \<Rightarrow>
             [ModelInvoke ''granite3.2'' (summarize_prompt (page_text url page_response))])) \<and>
   (\<exists>rest. fst (batch_runner env url) = HttpGet url # rest \<and>
      (\<forall>ev\<in>set rest. \<not> is_fetch ev) \<and>
      (\<forall>ev\<in>set rest. network_call ev \<longrightarrow> awaited ev \<and>
         (\<exists>page_response name. requests_get env url = Inr page_response \<and>
            ev = ModelInvoke name (summarize_prompt (page_text url page_response)))) \<and>
      filter network_call rest =
        (case requests_get env url of
           Inl e \<Rightarrow> []
         | Inr page_response \<Rightarrow>
             ModelInvoke ''qwen3:8b'' (summarize_prompt (page_text url page_response)) #
             (case structured env qwen (page_text url page_response) of
                Inl e \<Rightarrow> []
              | Inr obj \<Rightarrow>
                  [ModelInvoke ''granite3.2''
                     (summarize_prompt (page_text url page_response))]))) \<and>
   \<not> awaited (HttpGet url)"
proof (intro conjI)
  show "\<exists>rest. fst (summarize_article env url) = HttpGet url # rest \<and>
      (\<forall>ev\<in>set rest. \<not> is_fetch ev) \<and>
      (\<forall>ev\<in>set rest. network_call ev \<longrightarrow> awaited ev \<and>
         (\<exists>page_response. requests_get env url = Inr page_response \<and>
            ev = ModelInvoke ''granite3.2'' (summarize_prompt (page_text url page_response)))) \<and>
      filter network_call rest =
        (case requests_get env url of
           Inl e \<Rightarrow> []
         | Inr page_response \<Rightarrow>
             [ModelInvoke ''granite3.2'' (summarize_prompt (page_text url page_response))])"
    by (cases "requests_get env url")
       (simp_all add: summarize_article_run summarize_events_def granite_def get_model_def)
  show "\<exists>rest. fst (batch_runner env url) = HttpGet url # rest \<and>
      (\<forall>ev\<in>set rest. \<not> is_fetch ev) \<and>
      (\<forall>ev\<in>set rest. network_call ev \<longrightarrow> awaited ev \<and>
         (\<exists>page_response name. requests_get env url = Inr page_response \<and>
            ev = ModelInvoke name (summarize_prompt (page_text url page_response)))) \<and>
      filter network_call rest =
        (case requests_get env url of
           Inl e \<Rightarrow> []
         | Inr page_response \<Rightarrow>
             ModelInvoke ''qwen3:8b'' (summarize_prompt (page_text url page_response)) #
             (case structured env qwen (page_text url page_response) of
                Inl e \<Rightarrow> []
              | Inr obj \<Rightarrow>
                  [ModelInvoke ''granite3.2''
                     (summarize_prompt (page_text url page_response))]))"
  proof (cases "requests_get env url")
    case (Inl e)
    then show ?thesis by (simp add: batch_runner_run)
  next
    case (Inr page_response)
    show ?thesis
      by (cases "structured env qwen (page_text url page_response)";
          cases "structured env granite (page_text url page_response)")
         (simp_all add: batch_runner_run Inr for_agents_AGENTS summarize_events_def
            starting_def qwen_def granite_def get_model_def)
  qed
  show "\<not> awaited (HttpGet url)" by simp
qed

theorem fetch_once_before_model_calls_witness:
  "hd (fst (batch_runner example_env batch_url)) = HttpGet batch_url \<and>
   filter is_fetch (fst (batch_runner example_env batch_url)) = [HttpGet batch_url] \<and>
   filter network_call (tl (fst (batch_runner example_env batch_url))) =
     [ModelInvoke ''qwen3:8b'' (summarize_prompt (page_text batch_url example_page)),
      ModelInvoke ''granite3.2'' (summarize_prompt (page_text batch_url example_page))] \<and>
   hd (fst (summarize_article example_env batch_url)) = HttpGet batch_url \<and>
   filter is_fetch (fst (summarize_article example_env batch_url)) = [HttpGet batch_url] \<and>
   filter network_call (tl (fst (summarize_article example_env batch_url))) =
     [ModelInvoke ''granite3.2'' (summarize_prompt (page_text batch_url example_page))] \<and>
   filter network_call (tl (fst (summarize_article offline_env batch_url))) = [] \<and>
   filter network_call (tl (fst (batch_runner offline_env batch_url))) = [] \<and>
   filter network_call (tl (fst (batch_runner malformed_env batch_url))) =
     [ModelInvoke ''qwen3:8b'' (summarize_prompt (page_text batch_url example_page))]"
proof -
  note t = fetch_once_before_model_calls [of example_env batch_url]
  note t_off = fetch_once_before_model_calls [of offline_env batch_url]
  note t_mal = fetch_once_before_model_calls [of malformed_env batch_url]
  have g: "requests_get example_env batch_url = Inr example_page"
    by (simp add: example_env_def)
  have g_off: "requests_get offline_env batch_url = Inl (RequestException ''Connection refused'')"
    by (simp add: offline_env_def)
  have g_mal: "requests_get malformed_env batch_url = Inr example_page"
    by (simp add: malformed_env_def example_env_def)
  have s_mal: "structured malformed_env qwen (page_text batch_url example_page) =
     Inl (OutputParserException
            ''Failed to parse SummarySchema from completion. Got: Input should be one of the literals'')"
    by (simp add: structured_def malformed_env_def SummarySchema_malformed
        PydanticOutputParser_ValidationError)
  from t obtain rest where r: "fst (summarize_article example_env batch_url) = HttpGet batch_url # rest"
    "\<forall>ev\<in>set rest. \<not> is_fetch ev"
    "filter network_call rest =
       (case requests_get example_env batch_url of
          Inl e \<Rightarrow> []
        | Inr page_response \<Rightarrow>
            [ModelInvoke ''granite3.2'' (summarize_prompt (page_text batch_url page_response))])"
    by blast
  from t obtain rest' where r': "fst (batch_runner example_env batch_url) = HttpGet batch_url # rest'"
    "\<forall>ev\<in>set rest'. \<not> is_fetch ev"
    "filter network_call rest' =
       (case requests_get example_env batch_url of
          Inl e \<Rightarrow> []
        | Inr page_response \<Rightarrow>
            ModelInvoke ''qwen3:8b'' (summarize_prompt (page_text batch_url page_response)) #
            (case structured example_env qwen (page_text batch_url page_response) of
               Inl e \<Rightarrow> []
             | Inr obj \<Rightarrow>
                 [ModelInvoke ''granite3.2''
                    (summarize_prompt (page_text batch_url page_response))]))"
    by blast
  from t_off obtain rest_off where off:
    "fst (summarize_article offline_env batch_url) = HttpGet batch_url # rest_off"
    "filter network_call rest_off =
       (case requests_get offline_env batch_url of
          Inl e \<Rightarrow> []
        | Inr page_response \<Rightarrow>
            [ModelInvoke ''granite3.2'' (summarize_prompt (page_text batch_url page_response))])"
    by blast
  from t_off obtain rest_off' where off':
    "fst (batch_runner offline_env batch_url) = HttpGet batch_url # rest_off'"
    "filter network_call rest_off' =
       (case requests_get offline_env batch_url of
          Inl e \<Rightarrow> []
        | Inr page_response \<Rightarrow>
            ModelInvoke ''qwen3:8b'' (summarize_prompt (page_text batch_url page_response)) #
            (case structured offline_env qwen (page_text batch_url page_response) of
               Inl e \<Rightarrow> []
             | Inr obj \<Rightarrow>
                 [ModelInvoke ''granite3.2''
                    (summarize_prompt (page_text batch_url page_response))]))"
    by blast
  from t_mal obtain rest_mal where mal:
    "fst (batch_runner malformed_env batch_url) = HttpGet batch_url # rest_mal"
    "filter network_call rest_mal =
       (case requests_get malformed_env batch_url of
          Inl e \<Rightarrow> []
        | Inr page_response \<Rightarrow>
            ModelInvoke ''qwen3:8b'' (summarize_prompt (page_text batch_url page_response)) #
            (case structured malformed_env qwen (page_text batch_url page_response) of
               Inl e \<Rightarrow> []
             | Inr obj \<Rightarrow>
                 [ModelInvoke ''granite3.2''
                    (summarize_prompt (page_text batch_url page_response))]))"
    by blast
  have f: "filter is_fetch rest = []" "filter is_fetch rest' = []"
    using r(2) r'(2) by (simp_all add: filter_empty_conv)
  have n: "filter network_call rest =
      [ModelInvoke ''granite3.2'' (summarize_prompt (page_text batch_url example_page))]"
    using r(3) by (simp add: g)
  have n': "filter network_call rest' =
      [ModelInvoke ''qwen3:8b'' (summarize_prompt (page_text batch_url example_page)),
       ModelInvoke ''granite3.2'' (summarize_prompt (page_text batch_url example_page))]"
    using r'(3) by (simp add: g structured_example)
  have n_off: "filter network_call rest_off = []" "filter network_call rest_off' = []"
    using off(2) off'(2) by (simp_all add: g_off)
  have n_mal: "filter network_call rest_mal =
      [ModelInvoke ''qwen3:8b'' (summarize_prompt (page_text batch_url example_page))]"
    using mal(2) by (simp add: g_mal s_mal)
  from r(1) r'(1) off(1) off'(1) mal(1) f n n' n_off n_mal show ?thesis by simp
qed

end
